theory Spec2Isabelle
  imports Complex_Main "HOL-Library.Sublist"
begin

section \<open>Text\<close>

text \<open>
  A Python \<open>str\<close> is a sequence of Unicode code points: \<open>len\<close>, slicing, \<open>strip\<close>,
  \<open>split\<close> and the regular expressions of the agent all count code points. The model keeps a
  text as the list of its code points. \<open>asc\<close> writes an ASCII literal; texts with Cyrillic
  letters are given by their code points.
\<close>

type_synonym pystr = "nat list"

definition asc :: "string \<Rightarrow> pystr" where
  "asc s = map of_char s"

section \<open>The LLM client: \<open>MarketingAgent._call_llm\<close>\<close>

text \<open>
  One pass of the \<open>for attempt in range(max_retries)\<close> loop posts the request once. What the
  post does is outside the program; the model takes the outcome of every attempt as given:
  \<^item> \<open>Returned c\<close>: the post succeeded and the \<open>return\<close> statement delivered the content \<open>c\<close>;
  \<^item> \<open>HTTPError s\<close>: \<open>raise_for_status\<close> raised for status code \<open>s\<close>;
  \<^item> \<open>Timeout\<close>: \<open>requests.exceptions.Timeout\<close> was raised;
  \<^item> \<open>OtherException\<close>: any other exception (connection error, malformed body, missing key).
  The result records the returned value (\<open>None\<close> for Python's \<open>None\<close>), the arguments of the
  \<open>time.sleep\<close> calls in order, and the number of posts made.
\<close>

datatype attempt = Returned pystr | HTTPError nat | Timeout | OtherException

record llm_call =
  returned :: "pystr option"
  waits :: "nat list"
  attempts :: nat

function call_llm_from :: "(nat \<Rightarrow> attempt) \<Rightarrow> nat \<Rightarrow> nat \<Rightarrow> llm_call" where
  "call_llm_from http max_retries attempt =
     (if attempt < max_retries then
        (case http attempt of
           Returned content \<Rightarrow> \<lparr>returned = Some content, waits = [], attempts = 1\<rparr>
         | HTTPError status \<Rightarrow>
             (if status = 429 then
                (let wait_time = 2 ^ attempt + 1;
                     r = call_llm_from http max_retries (Suc attempt)
                 in r\<lparr>waits := wait_time # waits r, attempts := Suc (attempts r)\<rparr>)
              else \<lparr>returned = None, waits = [], attempts = 1\<rparr>)
         | Timeout \<Rightarrow>
             (let wait_time = 5;
                  r = call_llm_from http max_retries (Suc attempt)
              in r\<lparr>waits := wait_time # waits r, attempts := Suc (attempts r)\<rparr>)
         | OtherException \<Rightarrow> \<lparr>returned = None, waits = [], attempts = 1\<rparr>)
      else \<lparr>returned = None, waits = [], attempts = 0\<rparr>)"
  by pat_completeness auto
termination
  by (relation "measure (\<lambda>(http, max_retries, attempt). max_retries - attempt)") auto

declare call_llm_from.simps [simp del]

definition call_llm :: "(nat \<Rightarrow> attempt) \<Rightarrow> nat \<Rightarrow> llm_call" where
  "call_llm http max_retries = call_llm_from http max_retries 0"

text \<open>The attempts that the loop answers with a sleep and another pass, and the sleep.\<close>

definition retried :: "attempt \<Rightarrow> bool" where
  "retried a = (a = HTTPError 429 \<or> a = Timeout)"

definition wait_time_of :: "nat \<Rightarrow> attempt \<Rightarrow> nat" where
  "wait_time_of k a = (if a = Timeout then 5 else 2 ^ k + 1)"

subsection \<open>Retry policy\<close>

lemma call_llm_from_retried:
  "k < m \<Longrightarrow> retried (http k) \<Longrightarrow>
   call_llm_from http m k =
     (let r = call_llm_from http m (Suc k)
      in r\<lparr>waits := wait_time_of k (http k) # waits r, attempts := Suc (attempts r)\<rparr>)"
  by (subst call_llm_from.simps) (auto simp: retried_def wait_time_of_def Let_def)

lemma call_llm_from_skip:
  "a \<le> k \<Longrightarrow> k \<le> m \<Longrightarrow> (\<forall>i. a \<le> i \<and> i < k \<longrightarrow> retried (http i)) \<Longrightarrow>
   call_llm_from http m a =
     (let r = call_llm_from http m k
      in r\<lparr>waits := map (\<lambda>i. wait_time_of i (http i)) [a..<k] @ waits r,
           attempts := (k - a) + attempts r\<rparr>)"
proof (induction "k - a" arbitrary: a)
  case 0
  then show ?case by (simp add: Let_def)
next
  case (Suc d)
  then have a: "a < k" "a < m" "retried (http a)" by auto
  have ih: "call_llm_from http m (Suc a) =
     (let r = call_llm_from http m k
      in r\<lparr>waits := map (\<lambda>i. wait_time_of i (http i)) [Suc a..<k] @ waits r,
           attempts := (k - Suc a) + attempts r\<rparr>)"
    using Suc by (intro Suc.hyps(1)) auto
  have up: "[a..<k] = a # [Suc a..<k]"
    using a(1) by (simp add: upt_conv_Cons)
  show ?case
    using a by (simp add: call_llm_from_retried ih up Let_def)
qed

lemma call_llm_from_end:
  "call_llm_from http m m = \<lparr>returned = None, waits = [], attempts = 0\<rparr>"
  by (subst call_llm_from.simps) simp

lemma call_llm_from_stop:
  "k < m \<Longrightarrow> \<not> retried (http k) \<Longrightarrow>
   call_llm_from http m k =
     \<lparr>returned = (case http k of Returned c \<Rightarrow> Some c | _ \<Rightarrow> None), waits = [], attempts = 1\<rparr>"
  by (subst call_llm_from.simps) (auto simp: retried_def split: attempt.splits)

text \<open>Two request histories: a timeout first, then a rate limit, then an answer; and a
  server that always answers 429.\<close>

definition http_timeout_then_429 :: "nat \<Rightarrow> attempt" where
  "http_timeout_then_429 k =
     (if k = 0 then Timeout else if k = 1 then HTTPError 429 else Returned (asc ''ok''))"

definition http_always_429 :: "nat \<Rightarrow> attempt" where
  "http_always_429 k = HTTPError 429"

text \<open>
  C6, as stated: a timeout on attempt \<open>k\<close> is retried after \<open>2 ^ k + 1\<close> seconds, like a 429.
  The \<open>except requests.exceptions.Timeout\<close> branch sleeps a fixed 5 seconds: a timeout on
  attempt 0 is followed by a wait of 5 seconds, not 2.
\<close>

theorem call_llm_timeout_wait_counterexample:
  "http_timeout_then_429 0 = Timeout \<and>
   waits (call_llm http_timeout_then_429 5) ! 0 = 5 \<and>
   waits (call_llm http_timeout_then_429 5) ! 0 \<noteq> 2 ^ 0 + 1"
  by (simp add: call_llm_def call_llm_from.simps http_timeout_then_429_def)

text \<open>
  C6, amended: with \<open>max_retries = M\<close>, as long as every attempt so far ended in HTTP 429 or
  in a timeout the loop sleeps and tries again, at most \<open>M\<close> times: after a 429 on attempt
  \<open>i\<close> (0-indexed) it sleeps \<open>2 ^ i + 1\<close> seconds, after a timeout a fixed 5 seconds
  (\<open>wait_time_of\<close>). If all \<open>M\<close> attempts were retried, the call returns failure after \<open>M\<close>
  posts. The first attempt \<open>k < M\<close> that ends otherwise ends the call with no further post and
  no further sleep: with the content if the post succeeded, with failure on any other HTTP
  error or any other exception.
\<close>

theorem call_llm_retry_policy:
  assumes "k \<le> M" and "\<forall>i<k. retried (http i)"
  shows "(k = M \<longrightarrow>
            call_llm http M =
              \<lparr>returned = None,
               waits = map (\<lambda>i. if http i = Timeout then 5 else 2 ^ i + 1) [0..<M],
               attempts = M\<rparr>) \<and>
         (k < M \<and> \<not> retried (http k) \<longrightarrow>
            call_llm http M =
              \<lparr>returned = (case http k of Returned c \<Rightarrow> Some c | _ \<Rightarrow> None),
               waits = map (\<lambda>i. if http i = Timeout then 5 else 2 ^ i + 1) [0..<k],
               attempts = Suc k\<rparr>)"
proof -
  have skip: "call_llm http M =
     (let r = call_llm_from http M k
      in r\<lparr>waits := map (\<lambda>i. wait_time_of i (http i)) [0..<k] @ waits r,
           attempts := (k - 0) + attempts r\<rparr>)"
    unfolding call_llm_def using assms by (intro call_llm_from_skip) auto
  have w: "(\<lambda>i. wait_time_of i (http i)) = (\<lambda>i. if http i = Timeout then 5 else 2 ^ i + 1)"
    by (simp add: wait_time_of_def fun_eq_iff)
  show ?thesis
    by (auto simp: skip w call_llm_from_end call_llm_from_stop Let_def)
qed

theorem call_llm_retry_policy_witness:
  "call_llm http_timeout_then_429 5 =
     \<lparr>returned = Some (asc ''ok''), waits = [5, 3], attempts = 3\<rparr> \<and>
   call_llm http_always_429 5 =
     \<lparr>returned = None, waits = [2, 3, 5, 9, 17], attempts = 5\<rparr>"
proof -
  have a: "\<forall>i<2. retried (http_timeout_then_429 i)"
    by (simp add: retried_def http_timeout_then_429_def)
  have b: "\<forall>i<5. retried (http_always_429 i)"
    by (simp add: retried_def http_always_429_def)
  have u2: "[0..<2] = [0, 1]" and u5: "[0..<5] = [0, 1, 2, 3, 4]"
    by (simp_all add: upt_rec)
  from call_llm_retry_policy [of 2 5 http_timeout_then_429, OF _ a]
  have 1: "call_llm http_timeout_then_429 5 =
     \<lparr>returned = Some (asc ''ok''), waits = [5, 3], attempts = 3\<rparr>"
    by (simp add: retried_def http_timeout_then_429_def u2)
  from call_llm_retry_policy [of 5 5 http_always_429, OF _ b]
  have 2: "call_llm http_always_429 5 =
     \<lparr>returned = None, waits = [2, 3, 5, 9, 17], attempts = 5\<rparr>"
    by (simp add: http_always_429_def u5)
  from 1 2 show ?thesis by simp
qed

section \<open>Case mapping and membership of texts\<close>

text \<open>
  \<open>str.lower\<close> maps every code point to the code points of its lowercase form. The model
  covers the scripts the program's tables, tags and patterns are written in: basic Latin and
  Cyrillic capitals, and the two code points outside ASCII whose lowercase form holds an
  ASCII letter (U+0130, capital I with dot above, becomes \<open>i\<close> followed by U+0307; U+212A,
  the Kelvin sign, becomes \<open>k\<close>). Every other code point is kept as it is: Python sends
  it to code points that occur in no key, tag or pattern of the program.
  \<open>a in b\<close> on two texts is \<^const>\<open>sublist\<close>.
\<close>

definition lower_cp :: "nat \<Rightarrow> pystr" where
  "lower_cp c =
     (if 65 \<le> c \<and> c \<le> 90 then [c + 32]
      else if 1040 \<le> c \<and> c \<le> 1071 then [c + 32]
      else if 1024 \<le> c \<and> c \<le> 1039 then [c + 80]
      else if c = 304 then [105, 775]
      else if c = 8490 then [107]
      else [c])"

definition lower :: "pystr \<Rightarrow> pystr" where
  "lower s = concat (map lower_cp s)"

text \<open>\<open>d.get(key, default)\<close> on a dictionary literal, kept as the list of its items.\<close>

definition dict_get :: "('k \<times> 'v) list \<Rightarrow> 'k \<Rightarrow> 'v \<Rightarrow> 'v" where
  "dict_get d key dflt = (case map_of d key of Some v \<Rightarrow> v | None \<Rightarrow> dflt)"

section \<open>The budget estimator: \<open>estimate_budget\<close>\<close>

record cac =
  cac_min :: int
  cac_avg :: int
  cac_max :: int

text \<open>The table \<open>industry_cac\<close>, in the order of the source (the lookup loop takes the first
  key that fits). The Cyrillic keys are given by code points.\<close>

definition industry_cac :: "(pystr \<times> cac) list" where
  "industry_cac =
    [(asc ''IT'', \<lparr>cac_min = 10000, cac_avg = 15000, cac_max = 25000\<rparr>),
     ([1088, 1080, 1090, 1077, 1081, 1083], \<lparr>cac_min = 300, cac_avg = 500, cac_max = 1000\<rparr>),
     ([1092, 1080, 1085, 1072, 1085, 1089, 1099],
        \<lparr>cac_min = 15000, cac_avg = 25000, cac_max = 50000\<rparr>),
     ([1086, 1073, 1088, 1072, 1079, 1086, 1074, 1072, 1085, 1080, 1077],
        \<lparr>cac_min = 2000, cac_avg = 5000, cac_max = 10000\<rparr>),
     (asc ''edtech'', \<lparr>cac_min = 2000, cac_avg = 5000, cac_max = 10000\<rparr>),
     (asc ''saas'', \<lparr>cac_min = 8000, cac_avg = 15000, cac_max = 30000\<rparr>),
     (asc ''b2b'', \<lparr>cac_min = 10000, cac_avg = 20000, cac_max = 40000\<rparr>),
     (asc ''e-commerce'', \<lparr>cac_min = 200, cac_avg = 400, cac_max = 800\<rparr>),
     ([1082, 1088, 1072, 1089, 1086, 1090, 1072], \<lparr>cac_min = 500, cac_avg = 800, cac_max = 1500\<rparr>),
     ([1073, 1072, 1088, 1073, 1077, 1088, 1096, 1086, 1087],
        \<lparr>cac_min = 300, cac_avg = 500, cac_max = 1000\<rparr>),
     ([1089, 1072, 1083, 1086, 1085], \<lparr>cac_min = 500, cac_avg = 800, cac_max = 1500\<rparr>),
     ([1084, 1077, 1076, 1080, 1094, 1080, 1085, 1072],
        \<lparr>cac_min = 2000, cac_avg = 3000, cac_max = 5000\<rparr>),
     ([1089, 1090, 1086, 1084, 1072, 1090, 1086, 1083, 1086, 1075, 1080, 1103],
        \<lparr>cac_min = 3000, cac_avg = 4000, cac_max = 6000\<rparr>),
     ([1092, 1080, 1090, 1085, 1077, 1089], \<lparr>cac_min = 1000, cac_avg = 1500, cac_max = 2500\<rparr>),
     ([1088, 1077, 1089, 1090, 1086, 1088, 1072, 1085],
        \<lparr>cac_min = 200, cac_avg = 300, cac_max = 500\<rparr>),
     ([1082, 1072, 1092, 1077], \<lparr>cac_min = 100, cac_avg = 150, cac_max = 300\<rparr>),
     ([1072, 1074, 1090, 1086, 1089, 1077, 1088, 1074, 1080, 1089],
        \<lparr>cac_min = 1500, cac_avg = 2000, cac_max = 3000\<rparr>),
     ([1085, 1077, 1076, 1074, 1080, 1078, 1080, 1084, 1086, 1089, 1090, 1100],
        \<lparr>cac_min = 30000, cac_avg = 50000, cac_max = 100000\<rparr>),
     ([1094, 1074, 1077, 1090, 1099], \<lparr>cac_min = 300, cac_avg = 400, cac_max = 600\<rparr>),
     ([1076, 1086, 1089, 1090, 1072, 1074, 1082, 1072],
        \<lparr>cac_min = 150, cac_avg = 200, cac_max = 350\<rparr>),
     ([1082, 1083, 1080, 1085, 1080, 1085, 1075], \<lparr>cac_min = 800, cac_avg = 1000, cac_max = 1500\<rparr>),
     ([1102, 1088, 1080, 1076, 1080, 1095, 1077, 1089, 1082, 1080, 1077],
        \<lparr>cac_min = 5000, cac_avg = 8000, cac_max = 15000\<rparr>),
     ([1090, 1091, 1088, 1080, 1079, 1084], \<lparr>cac_min = 1000, cac_avg = 2000, cac_max = 4000\<rparr>)]"

text \<open>
  The multipliers are Python floats. The model keeps them as rationals and \<open>int(...)\<close> as
  truncation towards zero. For the multipliers 0.5, 1.0 and 2.0 the float products of the
  tables' integers are exact, so the model computes what the program computes; for 1.3, 0.4
  and 0.7 the model leaves the rounding of the float product out.
\<close>

definition goal_multipliers :: "(pystr \<times> rat) list" where
  "goal_multipliers =
    [(asc ''awareness'', 1 / 2), (asc ''leads'', 1), (asc ''sales'', 13 / 10),
     (asc ''retention'', 2 / 5)]"

text \<open>The four company sizes, Cyrillic words in the source: startup, small, medium (the
  default of the parameter \<open>company_size\<close>), large.\<close>

definition size_startup :: pystr where
  "size_startup = [1089, 1090, 1072, 1088, 1090, 1072, 1087]"

definition size_small :: pystr where
  "size_small = [1084, 1072, 1083, 1099, 1081]"

definition size_medium :: pystr where
  "size_medium = [1089, 1088, 1077, 1076, 1085, 1080, 1081]"

definition size_large :: pystr where
  "size_large = [1082, 1088, 1091, 1087, 1085, 1099, 1081]"

definition size_multipliers :: "(pystr \<times> rat) list" where
  "size_multipliers =
    [(size_startup, 1 / 2), (size_small, 7 / 10), (size_medium, 1), (size_large, 2)]"

record base_budget =
  base_min :: int
  base_optimal :: int
  base_max :: int

text \<open>\<open>medium_base\<close> is the entry \<open>base_budgets[size_medium]\<close>, the default of the lookup.\<close>

definition medium_base :: base_budget where
  "medium_base = \<lparr>base_min = 300000, base_optimal = 700000, base_max = 1500000\<rparr>"

definition base_budgets :: "(pystr \<times> base_budget) list" where
  "base_budgets =
    [(size_startup, \<lparr>base_min = 50000, base_optimal = 150000, base_max = 300000\<rparr>),
     (size_small, \<lparr>base_min = 100000, base_optimal = 300000, base_max = 500000\<rparr>),
     (size_medium, medium_base),
     (size_large, \<lparr>base_min = 1000000, base_optimal = 3000000, base_max = 10000000\<rparr>)]"

definition py_int :: "rat \<Rightarrow> int" where
  "py_int q = (if 0 \<le> q then \<lfloor>q\<rfloor> else \<lceil>q\<rceil>)"

text \<open>The loop \<open>for key in industry_cac: if key in industry_lower: ...; break\<close>, and the
  default taken when it found nothing.\<close>

fun find_cac :: "(pystr \<times> cac) list \<Rightarrow> pystr \<Rightarrow> cac option" where
  "find_cac [] industry_lower = None"
| "find_cac ((key, v) # rest) industry_lower =
     (if sublist key industry_lower then Some v else find_cac rest industry_lower)"

definition default_cac :: cac where
  "default_cac = \<lparr>cac_min = 3000, cac_avg = 7000, cac_max = 15000\<rparr>"

record budget_recommendations =
  minimum :: int
  optimal :: int
  maximum :: int

text \<open>The returned mapping. Its \<open>insight\<close> entry, a sentence formatted from the other
  entries, is left out. The four values of \<open>recommended_period\<close> are Russian phrases: one
  month, one to two months, a quarter, a quarter or half a year.\<close>

record budget_estimate =
  res_goal :: pystr
  res_industry :: pystr
  res_company_size :: pystr
  res_target_leads :: "int option"
  estimated_cac :: int
  recommendations :: budget_recommendations
  recommended_period :: pystr

definition estimate_budget ::
  "pystr \<Rightarrow> pystr \<Rightarrow> int option \<Rightarrow> pystr \<Rightarrow> budget_estimate" where
  "estimate_budget goal industry target_leads company_size =
     (let industry_lower = lower industry;
          cac_data = (case find_cac industry_cac industry_lower of
                        Some d \<Rightarrow> d | None \<Rightarrow> default_cac);
          goal_mult = dict_get goal_multipliers (lower goal) 1;
          size_mult = dict_get size_multipliers (lower company_size) 1;
          budgets =
            (case target_leads of
               Some n \<Rightarrow>
                 if n \<noteq> 0 then
                   \<lparr>minimum = py_int (of_int n * of_int (cac_min cac_data) * goal_mult * size_mult),
                    optimal = py_int (of_int n * of_int (cac_avg cac_data) * goal_mult * size_mult),
                    maximum = py_int (of_int n * of_int (cac_max cac_data) * goal_mult * size_mult)\<rparr>
                 else
                   (let base = dict_get base_budgets (lower company_size) medium_base
                    in \<lparr>minimum = py_int (of_int (base_min base) * goal_mult),
                        optimal = py_int (of_int (base_optimal base) * goal_mult),
                        maximum = py_int (of_int (base_max base) * goal_mult)\<rparr>)
             | None \<Rightarrow>
                 (let base = dict_get base_budgets (lower company_size) medium_base
                  in \<lparr>minimum = py_int (of_int (base_min base) * goal_mult),
                      optimal = py_int (of_int (base_optimal base) * goal_mult),
                      maximum = py_int (of_int (base_max base) * goal_mult)\<rparr>));
          min_budget = minimum budgets
      in \<lparr>res_goal = goal, res_industry = industry, res_company_size = company_size,
          res_target_leads = target_leads,
          estimated_cac = cac_avg cac_data,
          recommendations = budgets,
          recommended_period =
            (if min_budget < 100000 then [49, 32, 1084, 1077, 1089, 1103, 1094]
             else if min_budget < 300000 then [49, 45, 50, 32, 1084, 1077, 1089, 1103, 1094, 1072]
             else if min_budget < 700000 then
               [1082, 1074, 1072, 1088, 1090, 1072, 1083, 32, 40, 51, 32, 1084, 1077, 1089,
                1103, 1094, 1072, 41]
             else
               [1082, 1074, 1072, 1088, 1090, 1072, 1083, 32, 1080, 1083, 1080, 32, 1087, 1086,
                1083, 1091, 1075, 1086, 1076, 1080, 1077])\<rparr>)"

subsection \<open>The call of scenario C\<close>

lemmas text_eval = asc_def lower_def lower_cp_def sublist_code(3)

lemma lower_IT: "lower (asc ''IT'') = asc ''it''"
  by (simp add: text_eval)

lemma find_cac_it: "find_cac industry_cac (asc ''it'') = None"
  by (simp add: industry_cac_def text_eval)

text \<open>No lowercased text contains the capital letters of the key \<open>IT\<close>: the first row of
  \<open>industry_cac\<close> is never the one the lookup loop finds.\<close>

lemma lower_no_capital_I: "73 \<notin> set (lower s)"
  by (induction s) (auto simp: lower_def lower_cp_def)

lemma IT_key_never_in_lower: "\<not> sublist (asc ''IT'') (lower industry)"
proof
  assume "sublist (asc ''IT'') (lower industry)"
  then have "set (asc ''IT'') \<subseteq> set (lower industry)"
    by (rule set_mono_sublist)
  then have "73 \<in> set (lower industry)"
    by (simp add: asc_def)
  then show False
    by (simp add: lower_no_capital_I)
qed

text \<open>
  C7: \<open>estimate_budget(goal="leads", industry="IT")\<close>, with no \<open>target_leads\<close> and the default
  \<open>company_size\<close>. The recommended optimal budget lies strictly between the minimum and the
  maximum, as the claim says. The reported \<open>estimated_cac\<close> is 7000, the average of the
  fallback record, while the average of the row \<open>IT\<close> of the per-industry table is 15000: the
  loop looks the keys up in the lowercased industry, which the key \<open>IT\<close> never fits.
\<close>

theorem estimate_budget_leads_IT:
  "estimated_cac (estimate_budget (asc ''leads'') (asc ''IT'') None size_medium) = 7000 \<and>
   map_option cac_avg (map_of industry_cac (asc ''IT'')) = Some 15000 \<and>
   recommendations (estimate_budget (asc ''leads'') (asc ''IT'') None size_medium) =
     \<lparr>minimum = 300000, optimal = 700000, maximum = 1500000\<rparr>"
proof -
  have 1: "estimated_cac (estimate_budget (asc ''leads'') (asc ''IT'') None size_medium) = 7000"
    by (simp add: estimate_budget_def lower_IT find_cac_it default_cac_def Let_def)
  have 2: "map_option cac_avg (map_of industry_cac (asc ''IT'')) = Some 15000"
    by (simp add: industry_cac_def)
  have g: "dict_get goal_multipliers (lower (asc ''leads'')) 1 = 1"
    by (simp add: dict_get_def goal_multipliers_def text_eval)
  have b: "dict_get base_budgets (lower size_medium) medium_base = medium_base"
    by (simp add: dict_get_def base_budgets_def size_medium_def size_startup_def
        size_small_def text_eval)
  have 3: "recommendations (estimate_budget (asc ''leads'') (asc ''IT'') None size_medium) =
     \<lparr>minimum = 300000, optimal = 700000, maximum = 1500000\<rparr>"
    unfolding estimate_budget_def Let_def g b
    by (simp add: medium_base_def py_int_def)
  from 1 2 3 show ?thesis by simp
qed

section \<open>Whitespace and regular expressions\<close>

text \<open>
  \<open>str.strip()\<close> and the class \<open>\s\<close> of a \<open>str\<close> pattern use the same set of code points
  (\<open>Py_UNICODE_ISSPACE\<close>): the ASCII controls 9 to 13 and 28 to 31, the space, and the
  Unicode spaces and line separators.
\<close>

definition isspace :: "nat \<Rightarrow> bool" where
  "isspace c =
     ((9 \<le> c \<and> c \<le> 13) \<or> (28 \<le> c \<and> c \<le> 32) \<or> c = 133 \<or> c = 160 \<or> c = 5760 \<or>
      (8192 \<le> c \<and> c \<le> 8202) \<or> c = 8232 \<or> c = 8233 \<or> c = 8239 \<or> c = 8287 \<or> c = 12288)"

definition strip :: "pystr \<Rightarrow> pystr" where
  "strip s = rev (dropWhile isspace (rev (dropWhile isspace s)))"

text \<open>
  With \<open>re.IGNORECASE\<close> a literal \<open>c\<close> of a \<open>str\<close> pattern matches the code point \<open>x\<close> when
  the simple lowercase form of \<open>x\<close> is the lowercase form of \<open>c\<close> or one of the code points
  the \<open>re\<close> module lists as its equivalents: dotless i for \<open>i\<close>, long s for \<open>s\<close>, and the
  historic Cyrillic letter forms U+1C80 to U+1C86. \<open>sre_lower\<close> is the simple lowercase
  mapping on the scripts of the patterns (basic Latin and Cyrillic), see \<open>lower_cp\<close>.
\<close>

definition sre_lower :: "nat \<Rightarrow> nat" where
  "sre_lower c =
     (if 65 \<le> c \<and> c \<le> 90 then c + 32
      else if 1040 \<le> c \<and> c \<le> 1071 then c + 32
      else if 1024 \<le> c \<and> c \<le> 1039 then c + 80
      else if c = 304 then 105
      else if c = 8490 then 107
      else c)"

definition ignorecase_fixes :: "nat \<Rightarrow> nat list" where
  "ignorecase_fixes lo =
     (if lo = 105 then [305]
      else if lo = 115 then [383]
      else if lo = 1074 then [7296]
      else if lo = 1076 then [7297]
      else if lo = 1086 then [7298]
      else if lo = 1089 then [7299]
      else if lo = 1090 then [7300, 7301]
      else if lo = 1098 then [7302]
      else [])"

definition ci_eq :: "nat \<Rightarrow> nat \<Rightarrow> bool" where
  "ci_eq c x = (sre_lower x \<in> set (sre_lower c # ignorecase_fixes (sre_lower c)))"

text \<open>
  The patterns of the program use literals, \<open>\s\<close>, two character sets, alternation,
  optional parts and the repetition of a single character class. \<open>rx\<close> is the syntax of
  such a pattern, compiled with \<open>re.IGNORECASE\<close>; \<open>rx_match r s k\<close> holds when \<open>r\<close> matches a
  prefix of \<open>s\<close> whose remainder satisfies the continuation \<open>k\<close>, and \<open>re_search\<close> is the
  truth value of \<open>re.search\<close>: some match starts somewhere in the text.
\<close>

datatype cls = Lit nat | Space | AnyOf "nat list" | NoneOf "nat list"

fun cls_match :: "cls \<Rightarrow> nat \<Rightarrow> bool" where
  "cls_match (Lit c) x = ci_eq c x"
| "cls_match Space x = isspace x"
| "cls_match (AnyOf cs) x = (\<exists>c \<in> set cs. ci_eq c x)"
| "cls_match (NoneOf cs) x = (\<not> (\<exists>c \<in> set cs. ci_eq c x))"

datatype rx = Eps | Atom cls | Many cls | Seq rx rx | Alt rx rx

fun rx_match :: "rx \<Rightarrow> pystr \<Rightarrow> (pystr \<Rightarrow> bool) \<Rightarrow> bool" where
  "rx_match Eps s k = k s"
| "rx_match (Atom a) [] k = False"
| "rx_match (Atom a) (x # xs) k = (if cls_match a x then k xs else False)"
| "rx_match (Many a) [] k = k []"
| "rx_match (Many a) (x # xs) k =
     (if k (x # xs) then True
      else if cls_match a x then rx_match (Many a) xs k else False)"
| "rx_match (Seq r1 r2) s k = rx_match r1 s (\<lambda>t. rx_match r2 t k)"
| "rx_match (Alt r1 r2) s k = (if rx_match r1 s k then True else rx_match r2 s k)"

fun re_search :: "rx \<Rightarrow> pystr \<Rightarrow> bool" where
  "re_search r [] = rx_match r [] (\<lambda>t. True)"
| "re_search r (x # xs) = (if rx_match r (x # xs) (\<lambda>t. True) then True else re_search r xs)"

text \<open>Shorthands: a run of literals, a sequence, the patterns of a list joined by \<open>|\<close>,
  \<open>\s*\<close>, \<open>\s+\<close>, an optional part.\<close>

fun lits :: "pystr \<Rightarrow> rx" where
  "lits [] = Eps"
| "lits (c # cs) = Seq (Atom (Lit c)) (lits cs)"

fun seq :: "rx list \<Rightarrow> rx" where
  "seq [] = Eps"
| "seq (r # rs) = Seq r (seq rs)"

fun alts :: "rx list \<Rightarrow> rx" where
  "alts [] = Eps"
| "alts [r] = r"
| "alts (r # rs) = Alt r (alts rs)"

definition spaces0 :: rx where
  "spaces0 = Many Space"

definition spaces1 :: rx where
  "spaces1 = Seq (Atom Space) (Many Space)"

definition opt :: "rx \<Rightarrow> rx" where
  "opt r = Alt r Eps"

section \<open>The input sanitizer: \<open>sanitize_input\<close>\<close>

text \<open>
  \<open>INJECTION_PATTERNS\<close>, in the order of the source, joined by \<open>|\<close> into \<open>INJECTION_REGEX\<close>.
  The Russian words of patterns 2, 3, 4, 13 and 15 are given by code points.
\<close>

definition INJECTION_PATTERNS :: "rx list" where
  "INJECTION_PATTERNS =
    [seq [lits (asc ''ignore''), spaces1,
          Alt (lits (asc ''previous'')) (Alt (lits (asc ''above'')) (lits (asc ''all''))),
          spaces1, Alt (lits (asc ''instructions'')) (lits (asc ''prompts''))],
     seq [lits [1079, 1072, 1073, 1091, 1076, 1100], spaces1,
          Alt (lits [1087, 1088, 1077, 1076, 1099, 1076, 1091, 1097, 1080, 1077])
              (lits [1074, 1089, 1077]),
          spaces1,
          Alt (lits [1080, 1085, 1089, 1090, 1088, 1091, 1082, 1094, 1080, 1080])
              (lits [1087, 1088, 1086, 1084, 1087, 1090, 1099])],
     seq [lits [1080, 1075, 1085, 1086, 1088, 1080, 1088, 1091, 1081], spaces1,
          Alt (lits [1087, 1088, 1077, 1076, 1099, 1076, 1091, 1097, 1080, 1077])
              (lits [1074, 1089, 1077]),
          spaces1,
          Alt (lits [1080, 1085, 1089, 1090, 1088, 1091, 1082, 1094, 1080, 1080])
              (lits [1087, 1088, 1086, 1084, 1087, 1090, 1099])],
     seq [lits [1090, 1099], spaces1, lits [1090, 1077, 1087, 1077, 1088, 1100], spaces1,
          opt (Seq (lits [1085, 1077]) spaces1),
          lits [1084, 1072, 1088, 1082, 1077, 1090, 1086, 1083, 1086, 1075]],
     seq [lits (asc ''new''), spaces1, lits (asc ''instruction''), opt (lits (asc ''s'')),
          lits (asc '':'')],
     seq [lits (asc ''system''), spaces0, lits (asc '':'')],
     seq [lits (asc ''<''), spaces0, lits (asc ''system''), spaces0, lits (asc ''>'')],
     seq [lits (asc ''[''), spaces0, lits (asc ''system''), spaces0, lits (asc '']'')],
     seq [lits (asc ''ADMIN''), spaces0, lits (asc '':'')],
     seq [lits (asc ''override''), spaces1,
          Alt (lits (asc ''instructions'')) (lits (asc ''system''))],
     seq [lits (asc ''disregard''), spaces1, Alt (lits (asc ''previous'')) (lits (asc ''above''))],
     seq [lits (asc ''pretend''), spaces1, lits (asc ''you''), spaces1, lits (asc ''are'')],
     lits [1087, 1088, 1080, 1090, 1074, 1086, 1088, 1080, 1089, 1100],
     seq [lits (asc ''act''), spaces1, lits (asc ''as''), spaces1, lits (asc ''if'')],
     seq [lits [1074, 1099, 1087, 1086, 1083, 1085, 1080], spaces1, lits [1082, 1086, 1076]],
     seq [lits (asc ''execute''), spaces1, lits (asc ''code'')],
     seq [lits (asc ''eval''), spaces0, lits (asc ''('')],
     seq [lits (asc ''exec''), spaces0, lits (asc ''('')]]"

definition INJECTION_REGEX :: rx where
  "INJECTION_REGEX = alts INJECTION_PATTERNS"

text \<open>
  The warnings are formatted sentences; the model keeps which sentence it is and the value
  formatted into it: the truncation length, the removed tag. The sentence about suspicious
  patterns also prints the first three matches, which the model leaves out.
\<close>

datatype warning = Truncated nat | SuspiciousPatterns | TagRemoved pystr

definition dangerous_tags :: "pystr list" where
  "dangerous_tags =
    [asc ''<system>'', asc ''</system>'', asc ''<admin>'', asc ''</admin>'', asc ''[INST]'',
     asc ''[/INST]'']"

text \<open>\<open>re.sub(re.escape(tag), "", text, flags=re.IGNORECASE)\<close>: one pass from the left that
  drops every match of the literal tag and goes on behind it.\<close>

definition ci_prefix :: "pystr \<Rightarrow> pystr \<Rightarrow> bool" where
  "ci_prefix tag s = (length tag \<le> length s \<and> list_all2 ci_eq tag (take (length tag) s))"

fun re_sub_literal :: "pystr \<Rightarrow> pystr \<Rightarrow> pystr" where
  "re_sub_literal tag [] = []"
| "re_sub_literal tag (x # xs) =
     (if tag \<noteq> [] \<and> ci_prefix tag (x # xs)
      then re_sub_literal tag (drop (length tag - 1) xs)
      else x # re_sub_literal tag xs)"

text \<open>\<open>text.replace(old, new)\<close> for a non-empty \<open>old\<close>.\<close>

fun replace :: "pystr \<Rightarrow> pystr \<Rightarrow> pystr \<Rightarrow> pystr" where
  "replace old new [] = []"
| "replace old new (x # xs) =
     (if old \<noteq> [] \<and> prefix old (x # xs)
      then new @ replace old new (drop (length old - 1) xs)
      else x # replace old new xs)"

fun remove_tags :: "pystr list \<Rightarrow> pystr \<Rightarrow> warning list \<Rightarrow> pystr \<times> warning list" where
  "remove_tags [] user_input warnings = (user_input, warnings)"
| "remove_tags (tag # tags) user_input warnings =
     (if sublist (lower tag) (lower user_input)
      then remove_tags tags (re_sub_literal tag user_input) (warnings @ [TagRemoved tag])
      else remove_tags tags user_input warnings)"

definition sanitize_input :: "pystr \<Rightarrow> nat \<Rightarrow> pystr \<times> warning list" where
  "sanitize_input user_input max_length =
     (let (user_input, warnings) =
            (if length user_input > max_length
             then (take max_length user_input, [Truncated max_length])
             else (user_input, []));
          warnings =
            (if re_search INJECTION_REGEX user_input then warnings @ [SuspiciousPatterns]
             else warnings);
          (user_input, warnings) = remove_tags dangerous_tags user_input warnings;
          user_input = replace (asc ''```'') [39, 39, 39] user_input
      in (strip user_input, warnings))"

lemmas rx_eval = spaces0_def spaces1_def opt_def ci_eq_def sre_lower_def ignorecase_fixes_def
  isspace_def

lemmas sanitize_eval = sanitize_input_def INJECTION_REGEX_def INJECTION_PATTERNS_def
  dangerous_tags_def ci_prefix_def strip_def

text \<open>
  C8: the input \<open><sys<system>tem>\<close> contains the tag \<open><system>\<close>. The single pass of
  \<open>re.sub\<close> drops the inner occurrence and records one removal warning (after the warning
  of the injection scan, whose pattern 7 fits the inner tag); what is left of the text closes
  up to the same tag, which the sanitizer returns.
\<close>

theorem sanitize_input_nested_tag:
  "sublist (asc ''<system>'') (asc ''<sys<system>tem>'') \<and>
   sanitize_input (asc ''<sys<system>tem>'') 5000 =
     (asc ''<system>'', [SuspiciousPatterns, TagRemoved (asc ''<system>'')]) \<and>
   sublist (asc ''<system>'') (fst (sanitize_input (asc ''<sys<system>tem>'') 5000))"
proof -
  have e: "sanitize_input (asc ''<sys<system>tem>'') 5000 =
     (asc ''<system>'', [SuspiciousPatterns, TagRemoved (asc ''<system>'')])"
    by (simp add: sanitize_eval rx_eval text_eval)
  have i: "sublist (asc ''<system>'') (asc ''<sys<system>tem>'')"
    by (simp add: text_eval)
  show ?thesis
    unfolding e using i by simp
qed

section \<open>The output safety filter: \<open>check_response_safety\<close>\<close>

text \<open>
  \<open>dangerous_patterns\<close>: every pattern with its source text (by code points, since the text
  is formatted into the reason) and its syntax. In order:
  \<^verbatim>\<open>os\.(system|popen|exec)\<close>, \<^verbatim>\<open>subprocess\.\<close>, \<^verbatim>\<open>eval\s*\(\<close>, \<^verbatim>\<open>exec\s*\(\<close>, \<^verbatim>\<open>__import__\<close> and
  \<^verbatim>\<open>open\s*\([^)]*,\s*['\"]w\<close>.
\<close>

definition dangerous_patterns :: "(pystr \<times> rx) list" where
  "dangerous_patterns =
    [([111, 115, 92, 46, 40, 115, 121, 115, 116, 101, 109, 124, 112, 111, 112, 101, 110, 124,
       101, 120, 101, 99, 41],
      seq [lits (asc ''os.''),
           Alt (lits (asc ''system'')) (Alt (lits (asc ''popen'')) (lits (asc ''exec'')))]),
     ([115, 117, 98, 112, 114, 111, 99, 101, 115, 115, 92, 46], lits (asc ''subprocess.'')),
     ([101, 118, 97, 108, 92, 115, 42, 92, 40], seq [lits (asc ''eval''), spaces0, lits (asc ''('')]),
     ([101, 120, 101, 99, 92, 115, 42, 92, 40], seq [lits (asc ''exec''), spaces0, lits (asc ''('')]),
     (asc ''__import__'', lits (asc ''__import__'')),
     ([111, 112, 101, 110, 92, 115, 42, 92, 40, 91, 94, 41, 93, 42, 44, 92, 115, 42, 91, 39,
       92, 34, 93, 119],
      seq [lits (asc ''open''), spaces0, lits (asc ''(''), Many (NoneOf [41]), lits (asc '',''),
           spaces0, Atom (AnyOf [39, 34]), lits (asc ''w'')])]"

text \<open>The sentence in front of the pattern in the reason (Russian: a dangerous pattern was
  found).\<close>

definition UNSAFE_REASON :: pystr where
  "UNSAFE_REASON =
    [1054, 1073, 1085, 1072, 1088, 1091, 1078, 1077, 1085, 32, 1086, 1087, 1072, 1089, 1085,
     1099, 1081, 32, 1087, 1072, 1090, 1090, 1077, 1088, 1085, 58, 32]"

fun first_dangerous :: "(pystr \<times> rx) list \<Rightarrow> pystr \<Rightarrow> pystr option" where
  "first_dangerous [] response = None"
| "first_dangerous ((pattern, r) # rest) response =
     (if re_search r response then Some pattern else first_dangerous rest response)"

definition check_response_safety :: "pystr \<Rightarrow> bool \<times> pystr" where
  "check_response_safety response =
     (case first_dangerous dangerous_patterns response of
        Some pattern \<Rightarrow> (False, UNSAFE_REASON @ pattern)
      | None \<Rightarrow> (True, []))"

section \<open>JSON texts: \<open>json.loads\<close> and the error object of \<open>json.dumps\<close>\<close>

text \<open>
  A decoded JSON value. A number keeps its literal (Python makes an \<open>int\<close> or a \<open>float\<close> of
  it; the program only passes it on). An object is a Python \<open>dict\<close>: its items in insertion
  order, a repeated key keeping its place and taking the later value.
\<close>

datatype json = JNull | JBool bool | JNum pystr | JStr pystr | JArr "json list"
  | JObj "(pystr \<times> json) list"

fun dict_set :: "(pystr \<times> json) list \<Rightarrow> pystr \<Rightarrow> json \<Rightarrow> (pystr \<times> json) list" where
  "dict_set [] k v = [(k, v)]"
| "dict_set ((k', v') # kvs) k v =
     (if k' = k then (k, v) # kvs else (k', v') # dict_set kvs k v)"

text \<open>
  The decoder of the standard library, as far as a text decides its result: whitespace is
  space, tab, line feed and carriage return; a string ends at the first unescaped quote, may
  not hold a control character, and knows the escapes \<^verbatim>\<open>\" \\ \/ \b \f \n \r \t \uXXXX\<close>, two
  \<^verbatim>\<open>\u\<close> escapes of a surrogate pair making one code point; a number is
  \<^verbatim>\<open>-?(0|[1-9][0-9]*)(\.[0-9]+)?([eE][-+]?[0-9]+)?\<close>; \<open>NaN\<close>, \<open>Infinity\<close> and \<open>-Infinity\<close> are
  accepted. \<open>None\<close> stands for \<open>json.JSONDecodeError\<close>.
\<close>

definition json_ws :: "nat \<Rightarrow> bool" where
  "json_ws c = (c = 32 \<or> c = 9 \<or> c = 10 \<or> c = 13)"

definition skip_ws :: "pystr \<Rightarrow> pystr" where
  "skip_ws s = dropWhile json_ws s"

definition hex_digit :: "nat \<Rightarrow> nat option" where
  "hex_digit c =
     (if 48 \<le> c \<and> c \<le> 57 then Some (c - 48)
      else if 97 \<le> c \<and> c \<le> 102 then Some (c - 87)
      else if 65 \<le> c \<and> c \<le> 70 then Some (c - 55)
      else None)"

fun hex4 :: "pystr \<Rightarrow> (nat \<times> pystr) option" where
  "hex4 (a # b # c # d # rest) =
     (case (hex_digit a, hex_digit b, hex_digit c, hex_digit d) of
        (Some h3, Some h2, Some h1, Some h0) \<Rightarrow> Some (4096 * h3 + 256 * h2 + 16 * h1 + h0, rest)
      | _ \<Rightarrow> None)"
| "hex4 _ = None"

definition simple_escape :: "nat \<Rightarrow> nat option" where
  "simple_escape e =
     (if e = 34 then Some 34 else if e = 92 then Some 92 else if e = 47 then Some 47
      else if e = 98 then Some 8 else if e = 102 then Some 12 else if e = 110 then Some 10
      else if e = 114 then Some 13 else if e = 116 then Some 9 else None)"

text \<open>\<open>unicode_escape s\<close> reads what follows \<^verbatim>\<open>\u\<close>: four hex digits, and a second escape
  when the two are a surrogate pair.\<close>

definition unicode_escape :: "pystr \<Rightarrow> (nat \<times> pystr) option" where
  "unicode_escape s =
     (case hex4 s of
        None \<Rightarrow> None
      | Some (u, rest) \<Rightarrow>
          (if 55296 \<le> u \<and> u \<le> 56319 \<and> prefix [92, 117] rest then
             (case hex4 (drop 2 rest) of
                Some (u2, rest3) \<Rightarrow>
                  (if 56320 \<le> u2 \<and> u2 \<le> 57343
                   then Some (65536 + (u - 55296) * 1024 + (u2 - 56320), rest3)
                   else Some (u, rest))
              | None \<Rightarrow> Some (u, rest))
           else Some (u, rest)))"

lemma hex4_shorter: "hex4 s = Some (u, rest) \<Longrightarrow> length rest < length s"
  by (induction s rule: hex4.induct) (auto split: option.splits)

lemma unicode_escape_shorter: "unicode_escape s = Some (u, rest) \<Longrightarrow> length rest < length s"
  unfolding unicode_escape_def
  by (fastforce split: option.splits if_splits prod.splits dest: hex4_shorter)

text \<open>\<open>scanstring s acc\<close> reads a string behind its opening quote; \<open>acc\<close> holds the decoded
  code points in reverse.\<close>

function scanstring :: "pystr \<Rightarrow> pystr \<Rightarrow> (pystr \<times> pystr) option" where
  "scanstring [] acc = None"
| "scanstring (c # cs) acc =
     (if c = 34 then Some (rev acc, cs)
      else if c = 92 then
        (case cs of
           [] \<Rightarrow> None
         | e # es \<Rightarrow>
             (if e = 117 then
                (case unicode_escape es of
                   None \<Rightarrow> None
                 | Some (u, rest) \<Rightarrow> scanstring rest (u # acc))
              else
                (case simple_escape e of
                   None \<Rightarrow> None
                 | Some d \<Rightarrow> scanstring es (d # acc))))
      else if c < 32 then None
      else scanstring cs (c # acc))"
  by pat_completeness auto
termination
  by (relation "measure (\<lambda>(s, acc). length s)")
    (auto dest: unicode_escape_shorter)

declare scanstring.simps [simp del]

definition is_digit :: "nat \<Rightarrow> bool" where
  "is_digit c = (48 \<le> c \<and> c \<le> 57)"

text \<open>\<open>match_number s\<close>: the literal of the number at the start of \<open>s\<close> and the text behind it.
  A fraction needs a digit behind the point and an exponent a digit behind its sign;
  otherwise the number ends in front of them.\<close>

definition match_number :: "pystr \<Rightarrow> (pystr \<times> pystr) option" where
  "match_number s =
     (case (if prefix [45] s then tl s else s) of
        [] \<Rightarrow> None
      | d # ds \<Rightarrow>
          (if \<not> is_digit d then None
           else
             (let s2 = (if d = 48 then ds else dropWhile is_digit ds);
                  s3 = (case s2 of
                          p # q # qs \<Rightarrow>
                            if p = 46 \<and> is_digit q then dropWhile is_digit qs else s2
                        | _ \<Rightarrow> s2);
                  s4 = (case s3 of
                          [] \<Rightarrow> s3
                        | e # q \<Rightarrow>
                            if e = 101 \<or> e = 69 then
                              (case (if prefix [45] q \<or> prefix [43] q then tl q else q) of
                                 [] \<Rightarrow> s3
                               | g # gs \<Rightarrow> if is_digit g then dropWhile is_digit gs else s3)
                            else s3)
              in Some (take (length s - length s4) s, s4))))"

text \<open>
  \<open>scan_once\<close> reads one value, \<open>parse_array\<close> the elements of an array from its first element
  on, \<open>parse_object\<close> the items of an object from the quote of a key on. The three call each
  other; the first argument bounds the number of nested calls. A call on a text \<open>s\<close> reads at
  least one code point of it before it calls again, so \<open>2 * length s + 1\<close> calls are enough
  for every text, and \<open>json_loads\<close> starts with that bound.
\<close>

fun scan_once :: "nat \<Rightarrow> pystr \<Rightarrow> (json \<times> pystr) option"
  and parse_array :: "nat \<Rightarrow> pystr \<Rightarrow> json list \<Rightarrow> (json \<times> pystr) option"
  and parse_object :: "nat \<Rightarrow> pystr \<Rightarrow> (pystr \<times> json) list \<Rightarrow> (json \<times> pystr) option"
where
  "scan_once 0 s = None"
| "scan_once (Suc n) [] = None"
| "scan_once (Suc n) (c # cs) =
     (if c = 34 then
        (case scanstring cs [] of None \<Rightarrow> None | Some (t, rest) \<Rightarrow> Some (JStr t, rest))
      else if c = 123 then
        (if prefix [125] (skip_ws cs) then Some (JObj [], tl (skip_ws cs))
         else parse_object n (skip_ws cs) [])
      else if c = 91 then
        (if prefix [93] (skip_ws cs) then Some (JArr [], tl (skip_ws cs))
         else parse_array n (skip_ws cs) [])
      else if prefix (asc ''null'') (c # cs) then Some (JNull, drop 4 (c # cs))
      else if prefix (asc ''true'') (c # cs) then Some (JBool True, drop 4 (c # cs))
      else if prefix (asc ''false'') (c # cs) then Some (JBool False, drop 5 (c # cs))
      else if prefix (asc ''NaN'') (c # cs) then Some (JNum (asc ''NaN''), drop 3 (c # cs))
      else if prefix (asc ''Infinity'') (c # cs)
        then Some (JNum (asc ''Infinity''), drop 8 (c # cs))
      else if prefix (asc ''-Infinity'') (c # cs)
        then Some (JNum (asc ''-Infinity''), drop 9 (c # cs))
      else
        (case match_number (c # cs) of
           None \<Rightarrow> None
         | Some (literal, rest) \<Rightarrow> Some (JNum literal, rest)))"
| "parse_array 0 s acc = None"
| "parse_array (Suc n) s acc =
     (case scan_once n s of
        None \<Rightarrow> None
      | Some (v, rest) \<Rightarrow>
          (case skip_ws rest of
             [] \<Rightarrow> None
           | d # ds \<Rightarrow>
               if d = 93 then Some (JArr (acc @ [v]), ds)
               else if d = 44 then parse_array n (skip_ws ds) (acc @ [v])
               else None))"
| "parse_object 0 s acc = None"
| "parse_object (Suc n) s acc =
     (case s of
        [] \<Rightarrow> None
      | q # qs \<Rightarrow>
          if q \<noteq> 34 then None
          else
            (case scanstring qs [] of
               None \<Rightarrow> None
             | Some (key, r1) \<Rightarrow>
                 (case skip_ws r1 of
                    [] \<Rightarrow> None
                  | colon # r2 \<Rightarrow>
                      if colon \<noteq> 58 then None
                      else
                        (case scan_once n (skip_ws r2) of
                           None \<Rightarrow> None
                         | Some (v, r3) \<Rightarrow>
                             (case skip_ws r3 of
                                [] \<Rightarrow> None
                              | d # ds \<Rightarrow>
                                  if d = 125 then Some (JObj (dict_set acc key v), ds)
                                  else if d = 44
                                    then parse_object n (skip_ws ds) (dict_set acc key v)
                                  else None)))))"

text \<open>\<open>json.loads\<close> refuses a text that starts with a byte order mark, skips whitespace,
  reads one value and accepts nothing but whitespace behind it.\<close>

definition json_loads :: "pystr \<Rightarrow> json option" where
  "json_loads s =
     (if prefix [65279] s then None
      else
        (case scan_once (2 * length s + 1) (skip_ws s) of
           None \<Rightarrow> None
         | Some (v, rest) \<Rightarrow> if skip_ws rest = [] then Some v else None))"

text \<open>
  \<open>json.dumps({"error": msg}, ensure_ascii=False)\<close>: the one-item object with the message
  as a JSON string. Quote and backslash get a backslash, the controls 8, 9, 10, 12 and 13
  their letter, every other control \<^verbatim>\<open>\u00XX\<close>; everything else is copied.
\<close>

definition hex_char :: "nat \<Rightarrow> nat" where
  "hex_char d = (if d < 10 then 48 + d else 87 + d)"

definition escape_char :: "nat \<Rightarrow> pystr" where
  "escape_char c =
     (if c = 34 then [92, 34] else if c = 92 then [92, 92] else if c = 10 then [92, 110]
      else if c = 13 then [92, 114] else if c = 9 then [92, 116] else if c = 8 then [92, 98]
      else if c = 12 then [92, 102]
      else if c < 32 then [92, 117, 48, 48, hex_char (c div 16), hex_char (c mod 16)]
      else [c])"

definition dumps_string :: "pystr \<Rightarrow> pystr" where
  "dumps_string t = [34] @ concat (map escape_char t) @ [34]"

definition dumps_error :: "pystr \<Rightarrow> pystr" where
  "dumps_error msg = asc ''{'' @ dumps_string (asc ''error'') @ asc '': '' @ dumps_string msg @ asc ''}''"

lemmas scan_once_numeral =
  scan_once.simps(3) [of "pred_numeral k" for k, folded numeral_eq_Suc]

lemmas parse_array_numeral =
  parse_array.simps(2) [of "pred_numeral k" for k, folded numeral_eq_Suc]

lemmas parse_object_numeral =
  parse_object.simps(2) [of "pred_numeral k" for k, folded numeral_eq_Suc]

lemmas json_eval = json_loads_def scan_once_numeral parse_array_numeral parse_object_numeral
  scanstring.simps skip_ws_def json_ws_def match_number_def is_digit_def simple_escape_def
  unicode_escape_def hex_digit_def asc_def

section \<open>The tool-call parser: \<open>MarketingAgent._parse_tool_calls\<close>\<close>

datatype exn = TypeError | AttributeError | KeyError | JSONDecodeError

definition OPEN_TAG :: pystr where
  "OPEN_TAG = asc ''<tool_call>''"

definition CLOSE_TAG :: pystr where
  "CLOSE_TAG = asc ''</tool_call>''"

definition lstrip :: "pystr \<Rightarrow> pystr" where
  "lstrip s = dropWhile isspace s"

definition rstrip :: "pystr \<Rightarrow> pystr" where
  "rstrip s = rev (dropWhile isspace (rev s))"

text \<open>\<open>partition_at sep s\<close> cuts \<open>s\<close> at the first occurrence of \<open>sep\<close>: the text in front of it
  and the text behind it.\<close>

fun partition_at :: "pystr \<Rightarrow> pystr \<Rightarrow> (pystr \<times> pystr) option" where
  "partition_at sep [] = None"
| "partition_at sep (x # xs) =
     (if prefix sep (x # xs) then Some ([], drop (length sep) (x # xs))
      else
        (case partition_at sep xs of
           None \<Rightarrow> None
         | Some (before, rest) \<Rightarrow> Some (x # before, rest)))"

lemma partition_at_length: "partition_at sep s = Some (before, rest) \<Longrightarrow> length rest \<le> length s"
  by (induction s arbitrary: before) (auto split: if_splits option.splits)

text \<open>
  \<^verbatim>\<open>re.findall(r'<tool_call>\s*(.*?)\s*</tool_call>', response, re.DOTALL)\<close>. The scan goes
  from the left. At an opening tag, \<^verbatim>\<open>\s*\<close> takes all the whitespace behind it; the group is
  the shortest text that whitespace and the closing tag follow, which is the text up to the
  first closing tag without the whitespace at its end; the scan goes on behind that closing
  tag. An opening tag with no closing tag behind it matches nothing.
\<close>

function findall_closed :: "pystr \<Rightarrow> pystr list" where
  "findall_closed [] = []"
| "findall_closed (x # xs) =
     (if prefix OPEN_TAG (x # xs) then
        (case partition_at CLOSE_TAG (lstrip (drop (length OPEN_TAG) (x # xs))) of
           Some (body, rest) \<Rightarrow> rstrip body # findall_closed rest
         | None \<Rightarrow> findall_closed xs)
      else findall_closed xs)"
  by pat_completeness auto
termination
proof (relation "measure length")
  fix x :: nat and xs x2 body rest
  assume "partition_at CLOSE_TAG (lstrip (drop (length OPEN_TAG) (x # xs))) = Some x2"
    and "(body, rest) = x2"
  then have "length rest \<le> length (lstrip (drop (length OPEN_TAG) (x # xs)))"
    using partition_at_length by metis
  also have "\<dots> \<le> length (drop (length OPEN_TAG) (x # xs))"
    unfolding lstrip_def by (rule length_dropWhile_le)
  also have "\<dots> < length (x # xs)"
    by (simp add: OPEN_TAG_def asc_def)
  finally show "(rest, x # xs) \<in> measure length"
    by simp
qed auto

declare findall_closed.simps [simp del]

text \<open>
  \<^verbatim>\<open>re.findall(r'<tool_call>\s*(\{.*?\})\s*$', response, re.DOTALL)\<close>, the pattern for a block
  that the stop sequence cut off. It matches at the first opening tag whose text, behind the
  whitespace, starts with an opening brace and ends, in front of the whitespace at the end
  of the response, with a closing brace; the group is that text, and the match runs to the
  end of the response, so there is at most one.
\<close>

fun findall_open :: "pystr \<Rightarrow> pystr list" where
  "findall_open [] = []"
| "findall_open (x # xs) =
     (if prefix OPEN_TAG (x # xs) \<and>
         prefix [123] (lstrip (drop (length OPEN_TAG) (x # xs))) \<and>
         suffix [125] (rstrip (lstrip (drop (length OPEN_TAG) (x # xs))))
      then [rstrip (lstrip (drop (length OPEN_TAG) (x # xs)))]
      else findall_open xs)"

text \<open>\<open>key in value\<close> for a decoded JSON value: a key of a dictionary, an element of a list,
  a part of a text; a number, a truth value and \<open>None\<close> raise \<open>TypeError\<close>.\<close>

fun py_in :: "pystr \<Rightarrow> json \<Rightarrow> exn + bool" where
  "py_in key (JObj items) = Inr (key \<in> set (map fst items))"
| "py_in key (JArr elements) = Inr (JStr key \<in> set elements)"
| "py_in key (JStr t) = Inr (sublist key t)"
| "py_in key v = Inl TypeError"

text \<open>The loop over the matches. A match that is not JSON is skipped; \<open>and\<close> tests the
  second key only when the first is there; an exception of the test leaves the function.\<close>

fun collect_tool_calls :: "pystr list \<Rightarrow> exn + json list" where
  "collect_tool_calls [] = Inr []"
| "collect_tool_calls (m # matches) =
     (case json_loads (strip m) of
        None \<Rightarrow> collect_tool_calls matches
      | Some tool_call \<Rightarrow>
          (case py_in (asc ''name'') tool_call of
             Inl e \<Rightarrow> Inl e
           | Inr False \<Rightarrow> collect_tool_calls matches
           | Inr True \<Rightarrow>
               (case py_in (asc ''arguments'') tool_call of
                  Inl e \<Rightarrow> Inl e
                | Inr False \<Rightarrow> collect_tool_calls matches
                | Inr True \<Rightarrow>
                    (case collect_tool_calls matches of
                       Inl e \<Rightarrow> Inl e
                     | Inr tool_calls \<Rightarrow> Inr (tool_call # tool_calls)))))"

definition parse_tool_calls :: "pystr \<Rightarrow> exn + json list" where
  "parse_tool_calls response =
     (let matches = findall_closed response;
          matches = (if matches = [] then findall_open response else matches)
      in collect_tool_calls matches)"

section \<open>Tool dispatch: \<open>MarketingAgent._execute_tool\<close>\<close>

text \<open>The keys of the registry \<open>TOOL_FUNCTIONS\<close>.\<close>

definition TOOL_NAMES :: "pystr list" where
  "TOOL_NAMES =
    [asc ''analyze_target_audience'', asc ''estimate_roi'', asc ''analyze_seasonality'',
     asc ''channel_effectiveness'', asc ''competitor_benchmark'', asc ''budget_allocator'',
     asc ''estimate_budget'', asc ''estimate_campaign_duration'']"

text \<open>
  What the body of the \<open>try\<close> statement does for a registered tool and given arguments is taken
  as given: \<open>Inr text\<close> when the tool returned its mapping and \<open>json.dumps(result,
  ensure_ascii=False, indent=2)\<close> made \<open>text\<close> of it, \<open>Inl msg\<close> when the call (a missing or
  unknown argument, an error inside the tool) or the serialization raised an exception \<open>e\<close>
  with \<open>str(e) = msg\<close>.
\<close>

type_synonym tool_impl = "pystr \<Rightarrow> (pystr \<times> json) list \<Rightarrow> pystr + pystr"

text \<open>The message for an unknown tool puts the name between two Russian phrases (the tool
  ... was not found).\<close>

definition not_found_message :: "pystr \<Rightarrow> pystr" where
  "not_found_message tool_name =
     [1048, 1085, 1089, 1090, 1088, 1091, 1084, 1077, 1085, 1090, 32, 39] @ tool_name @
     [39, 32, 1085, 1077, 32, 1085, 1072, 1081, 1076, 1077, 1085]"

definition execute_tool :: "tool_impl \<Rightarrow> pystr \<Rightarrow> (pystr \<times> json) list \<Rightarrow> pystr" where
  "execute_tool impl tool_name arguments =
     (if tool_name \<notin> set TOOL_NAMES then dumps_error (not_found_message tool_name)
      else
        (case impl tool_name arguments of
           Inr text \<Rightarrow> text
         | Inl msg \<Rightarrow> dumps_error msg))"

section \<open>The orchestrator: \<open>MarketingAgent.run_stream\<close>\<close>

text \<open>
  The texts of the loop, Russian in the source: the marker of the final answer and the four
  final results that are not an answer (the completion failed; the response was blocked for
  safety; the iteration limit was reached, please refine the request; please enter a proper
  request).
\<close>

definition FINAL_MARKER :: pystr where
  "FINAL_MARKER =
     [1060, 1048, 1053, 1040, 1051, 1068, 1053, 1067, 1049, 32, 1054, 1058, 1042, 1045, 1058,
     58]"

definition MSG_LLM_ERROR :: pystr where
  "MSG_LLM_ERROR =
     [1054, 1096, 1080, 1073, 1082, 1072, 58, 32, 1085, 1077, 32, 1091, 1076, 1072, 1083, 1086,
     1089, 1100, 32, 1087, 1086, 1083, 1091, 1095, 1080, 1090, 1100, 32, 1086, 1090, 1074, 1077,
     1090, 32, 1086, 1090, 32, 76, 76, 77]"

definition MSG_BLOCKED :: pystr where
  "MSG_BLOCKED =
     [1054, 1090, 1074, 1077, 1090, 32, 1079, 1072, 1073, 1083, 1086, 1082, 1080, 1088, 1086,
     1074, 1072, 1085, 32, 1087, 1086, 32, 1089, 1086, 1086, 1073, 1088, 1072, 1078, 1077, 1085,
     1080, 1103, 1084, 32, 1073, 1077, 1079, 1086, 1087, 1072, 1089, 1085, 1086, 1089, 1090,
     1080, 46]"

definition MSG_LIMIT :: pystr where
  "MSG_LIMIT =
     [1044, 1086, 1089, 1090, 1080, 1075, 1085, 1091, 1090, 32, 1083, 1080, 1084, 1080, 1090,
     32, 1080, 1090, 1077, 1088, 1072, 1094, 1080, 1081, 46, 32, 1055, 1086, 1078, 1072, 1083,
     1091, 1081, 1089, 1090, 1072, 44, 32, 1087, 1086, 1087, 1088, 1086, 1073, 1091, 1081, 1090,
     1077, 32, 1091, 1090, 1086, 1095, 1085, 1080, 1090, 1100, 32, 1079, 1072, 1087, 1088, 1086,
     1089, 46]"

definition MSG_EMPTY_QUERY :: pystr where
  "MSG_EMPTY_QUERY =
     [1055, 1086, 1078, 1072, 1083, 1091, 1081, 1089, 1090, 1072, 44, 32, 1074, 1074, 1077,
     1076, 1080, 1090, 1077, 32, 1082, 1086, 1088, 1088, 1077, 1082, 1090, 1085, 1099, 1081, 32,
     1079, 1072, 1087, 1088, 1086, 1089, 32, 1086, 32, 1084, 1072, 1088, 1082, 1077, 1090, 1080,
     1085, 1075, 1077, 46]"

text \<open>
  \<open>response.split(marker)\<close>: the pieces between the occurrences of the marker, found from the
  left. (An empty separator raises \<open>ValueError\<close>; the loop splits at the marker only.)
\<close>

function py_split :: "pystr \<Rightarrow> pystr \<Rightarrow> pystr list" where
  "py_split sep s =
     (if sep = [] then []
      else
        (case partition_at sep s of
           None \<Rightarrow> [s]
         | Some (before, rest) \<Rightarrow> before # py_split sep rest))"
  by pat_completeness auto

lemma partition_at_shorter:
  "sep \<noteq> [] \<Longrightarrow> partition_at sep s = Some (before, rest) \<Longrightarrow> length rest < length s"
  by (induction s arbitrary: before) (auto split: if_splits option.splits)

termination py_split
  by (relation "measure (\<lambda>(sep, s). length s)") (auto dest: partition_at_shorter)

declare py_split.simps [simp del]

text \<open>
  A line of the progress log is one of eight sentences; the model keeps which one, with the
  iteration number or the tool name that is formatted into it. A yielded pair is the log so
  far (the source joins its lines with newlines) and the final result.
\<close>

datatype progress =
    Thinking nat
  | LLMError
  | UnsafeBlocked
  | FinalAnswer
  | NoToolCalls
  | Calling json
  | LimitReached
  | EmptyQuery

type_synonym yielded = "progress list \<times> pystr"

text \<open>How the generator ended: behind which \<open>yield\<close> it returned, or with which exception.\<close>

datatype ending = FINAL | ABORTED | EXHAUSTED | INVALID_INPUT | RAISED exn

record run =
  yields :: "yielded list"
  llm_calls :: nat
  ending :: ending

text \<open>\<open>value[key]\<close> for a decoded JSON value and a text key.\<close>

fun subscript :: "json \<Rightarrow> pystr \<Rightarrow> exn + json" where
  "subscript (JObj items) key =
     (case map_of items key of Some v \<Rightarrow> Inr v | None \<Rightarrow> Inl KeyError)"
| "subscript v key = Inl TypeError"

text \<open>
  One tool call behind its progress line: \<open>_execute_tool\<close>, \<open>json.loads\<close> of its result and
  the loop over the items of the decoded result. The test \<open>tool_name not in TOOL_FUNCTIONS\<close>
  hashes the name: a list or a dictionary raises \<open>TypeError\<close>; a number, a truth value or
  \<open>None\<close> is no key of the registry and gets the error object.
\<close>

fun run_tool :: "tool_impl \<Rightarrow> json \<Rightarrow> (pystr \<times> json) list \<Rightarrow> exn option" where
  "run_tool impl (JStr tool_name) arguments =
     (case json_loads (execute_tool impl tool_name arguments) of
        None \<Rightarrow> Some JSONDecodeError
      | Some (JObj result_dict) \<Rightarrow> None
      | Some v \<Rightarrow> Some AttributeError)"
| "run_tool impl (JArr v) arguments = Some TypeError"
| "run_tool impl (JObj v) arguments = Some TypeError"
| "run_tool impl tool_name arguments = None"

text \<open>The loop \<open>for tool_call in tool_calls\<close>: the pairs it yields, the log behind it, and the
  exception that ended it, if one did. \<open>arguments.items()\<close> needs a dictionary.\<close>

fun dispatch ::
  "tool_impl \<Rightarrow> json list \<Rightarrow> progress list \<Rightarrow> yielded list \<times> progress list \<times> exn option" where
  "dispatch impl [] progress_log = ([], progress_log, None)"
| "dispatch impl (tool_call # tool_calls) progress_log =
     (case subscript tool_call (asc ''name'') of
        Inl e \<Rightarrow> ([], progress_log, Some e)
      | Inr tool_name \<Rightarrow>
          (case subscript tool_call (asc ''arguments'') of
             Inl e \<Rightarrow> ([], progress_log, Some e)
           | Inr (JObj arguments) \<Rightarrow>
               (case run_tool impl tool_name arguments of
                  Some e \<Rightarrow>
                    ([(progress_log @ [Calling tool_name], [])],
                     progress_log @ [Calling tool_name], Some e)
                | None \<Rightarrow>
                    (case dispatch impl tool_calls (progress_log @ [Calling tool_name]) of
                       (ys, new_log, e) \<Rightarrow>
                         ((progress_log @ [Calling tool_name], []) # ys, new_log, e)))
           | Inr v \<Rightarrow> ([], progress_log, Some AttributeError)))"

text \<open>
  The \<open>while\<close> loop. \<open>http i k\<close> is the outcome of attempt \<open>k\<close> of the request that iteration
  \<open>i\<close> sends: the transcript goes to the completion endpoint only, so the responses are all
  the loop sees of it, and the model does not keep the transcript. \<open>_call_llm\<close> is called
  with its default of 5 attempts. \<open>behind\<close> puts the pairs of an iteration and its completion
  call in front of the rest of the run.
\<close>

definition behind :: "yielded list \<Rightarrow> run \<Rightarrow> run" where
  "behind ys r = r\<lparr>yields := ys @ yields r, llm_calls := Suc (llm_calls r)\<rparr>"

function run_loop ::
  "nat \<Rightarrow> (nat \<Rightarrow> nat \<Rightarrow> attempt) \<Rightarrow> tool_impl \<Rightarrow> nat \<Rightarrow> progress list \<Rightarrow> run" where
  "run_loop max_iterations http impl iteration progress_log =
     (if iteration < max_iterations then
        (case returned (call_llm (http (Suc iteration)) 5) of
           None \<Rightarrow>
             \<lparr>yields = [(progress_log @ [Thinking (Suc iteration)], []),
                        (progress_log @ [Thinking (Suc iteration), LLMError], MSG_LLM_ERROR)],
              llm_calls = 1, ending = ABORTED\<rparr>
         | Some response \<Rightarrow>
             if response = [] then
               \<lparr>yields = [(progress_log @ [Thinking (Suc iteration)], []),
                          (progress_log @ [Thinking (Suc iteration), LLMError], MSG_LLM_ERROR)],
                llm_calls = 1, ending = ABORTED\<rparr>
             else if \<not> fst (check_response_safety response) then
               \<lparr>yields = [(progress_log @ [Thinking (Suc iteration)], []),
                          (progress_log @ [Thinking (Suc iteration), UnsafeBlocked], MSG_BLOCKED)],
                llm_calls = 1, ending = ABORTED\<rparr>
             else if sublist FINAL_MARKER response then
               \<lparr>yields = [(progress_log @ [Thinking (Suc iteration)], []),
                          (progress_log @ [Thinking (Suc iteration), FinalAnswer],
                           strip (last (py_split FINAL_MARKER response)))],
                llm_calls = 1, ending = FINAL\<rparr>
             else
               (case parse_tool_calls response of
                  Inl e \<Rightarrow>
                    \<lparr>yields = [(progress_log @ [Thinking (Suc iteration)], [])],
                     llm_calls = 1, ending = RAISED e\<rparr>
                | Inr tool_calls \<Rightarrow>
                    if tool_calls = [] then
                      behind
                        [(progress_log @ [Thinking (Suc iteration)], []),
                         (progress_log @ [Thinking (Suc iteration), NoToolCalls], [])]
                        (run_loop max_iterations http impl (Suc iteration)
                           (progress_log @ [Thinking (Suc iteration), NoToolCalls]))
                    else
                      (case dispatch impl tool_calls (progress_log @ [Thinking (Suc iteration)]) of
                         (ys, new_log, Some e) \<Rightarrow>
                           \<lparr>yields = (progress_log @ [Thinking (Suc iteration)], []) # ys,
                            llm_calls = 1, ending = RAISED e\<rparr>
                       | (ys, new_log, None) \<Rightarrow>
                           behind ((progress_log @ [Thinking (Suc iteration)], []) # ys)
                             (run_loop max_iterations http impl (Suc iteration) new_log))))
      else
        \<lparr>yields = [(progress_log @ [LimitReached], MSG_LIMIT)], llm_calls = 0,
         ending = EXHAUSTED\<rparr>)"
  by pat_completeness auto
termination
  by (relation "measure (\<lambda>(max_iterations, http, impl, iteration, progress_log).
        max_iterations - iteration)") auto

declare run_loop.simps [simp del]

definition run_stream ::
  "nat \<Rightarrow> (nat \<Rightarrow> nat \<Rightarrow> attempt) \<Rightarrow> tool_impl \<Rightarrow> pystr \<Rightarrow> run" where
  "run_stream max_iterations http impl user_query =
     (case sanitize_input user_query 5000 of
        (sanitized_query, warnings) \<Rightarrow>
          if strip sanitized_query = [] then
            \<lparr>yields = [([EmptyQuery], MSG_EMPTY_QUERY)], llm_calls = 0, ending = INVALID_INPUT\<rparr>
          else run_loop max_iterations http impl 0 [])"

subsection \<open>The safety filter names the first pattern that fits\<close>

lemma dangerous_needs_text: "(p, r) \<in> set dangerous_patterns \<Longrightarrow> \<not> re_search r []"
  by (auto simp: dangerous_patterns_def spaces0_def asc_def)

lemma first_dangerous_first:
  "first_dangerous ps response = Some pattern \<longleftrightarrow>
   (\<exists>before r behind. ps = before @ (pattern, r) # behind \<and> re_search r response \<and>
      (\<forall>q \<in> set before. \<not> re_search (snd q) response))"
proof (induction ps)
  case Nil
  then show ?case by simp
next
  case (Cons a ps)
  obtain p0 r0 where a: "a = (p0, r0)" by (cases a)
  show ?case
  proof (cases "re_search r0 response")
    case True
    show ?thesis
    proof
      assume "first_dangerous (a # ps) response = Some pattern"
      with True a have "pattern = p0" by simp
      with True a show "\<exists>before r behind. a # ps = before @ (pattern, r) # behind \<and>
          re_search r response \<and> (\<forall>q \<in> set before. \<not> re_search (snd q) response)"
        by (intro exI [of _ "[]"] exI [of _ r0] exI [of _ ps]) simp
    next
      assume "\<exists>before r behind. a # ps = before @ (pattern, r) # behind \<and>
          re_search r response \<and> (\<forall>q \<in> set before. \<not> re_search (snd q) response)"
      then obtain before r behind where
        d: "a # ps = before @ (pattern, r) # behind" "re_search r response"
           "\<forall>q \<in> set before. \<not> re_search (snd q) response"
        by blast
      have "before = []"
      proof (cases before)
        case Nil then show ?thesis .
      next
        case (Cons b bs)
        with d(1) have "b = a" by simp
        with d(3) Cons a True show ?thesis by auto
      qed
      with d(1) a have "pattern = p0" by simp
      with True a show "first_dangerous (a # ps) response = Some pattern" by simp
    qed
  next
    case False
    have "(\<exists>before r behind. a # ps = before @ (pattern, r) # behind \<and>
          re_search r response \<and> (\<forall>q \<in> set before. \<not> re_search (snd q) response)) \<longleftrightarrow>
        (\<exists>before r behind. ps = before @ (pattern, r) # behind \<and>
          re_search r response \<and> (\<forall>q \<in> set before. \<not> re_search (snd q) response))"
      (is "?L \<longleftrightarrow> ?R")
    proof
      assume ?L
      then obtain before r behind where
        d: "a # ps = before @ (pattern, r) # behind" "re_search r response"
           "\<forall>q \<in> set before. \<not> re_search (snd q) response"
        by blast
      show ?R
      proof (cases before)
        case Nil
        with d(1) a have "r = r0" by simp
        with d(2) False show ?thesis by simp
      next
        case (Cons b bs)
        with d show ?thesis by auto
      qed
    next
      assume ?R
      then obtain before r behind where
        d: "ps = before @ (pattern, r) # behind" "re_search r response"
           "\<forall>q \<in> set before. \<not> re_search (snd q) response"
        by blast
      with False a show ?L
        by (intro exI [of _ "a # before"] exI [of _ r] exI [of _ behind]) simp
    qed
    with False a Cons.IH show ?thesis by simp
  qed
qed

lemma first_dangerous_exists:
  "(p, r) \<in> set ps \<Longrightarrow> re_search r response \<Longrightarrow> \<exists>pattern. first_dangerous ps response = Some pattern"
  by (induction ps) auto

subsection \<open>One pass of the loop\<close>

lemma run_loop_unsafe:
  assumes "iteration < max_iterations"
    and "returned (call_llm (http (Suc iteration)) 5) = Some response"
    and "response \<noteq> []"
    and "\<not> fst (check_response_safety response)"
  shows "run_loop max_iterations http impl iteration progress_log =
     \<lparr>yields = [(progress_log @ [Thinking (Suc iteration)], []),
                (progress_log @ [Thinking (Suc iteration), UnsafeBlocked], MSG_BLOCKED)],
      llm_calls = 1, ending = ABORTED\<rparr>"
  using assms by (subst run_loop.simps) simp

lemma run_loop_final:
  assumes "iteration < max_iterations"
    and "returned (call_llm (http (Suc iteration)) 5) = Some response"
    and "fst (check_response_safety response)"
    and "sublist FINAL_MARKER response"
  shows "run_loop max_iterations http impl iteration progress_log =
     \<lparr>yields = [(progress_log @ [Thinking (Suc iteration)], []),
                (progress_log @ [Thinking (Suc iteration), FinalAnswer],
                 strip (last (py_split FINAL_MARKER response)))],
      llm_calls = 1, ending = FINAL\<rparr>"
proof -
  have "response \<noteq> []"
    using assms(4) by (auto simp: FINAL_MARKER_def)
  with assms show ?thesis
    by (subst run_loop.simps) simp
qed

lemma run_loop_nudge:
  assumes "iteration < max_iterations"
    and "returned (call_llm (http (Suc iteration)) 5) = Some response"
    and "response \<noteq> []"
    and "fst (check_response_safety response)"
    and "\<not> sublist FINAL_MARKER response"
    and "parse_tool_calls response = Inr []"
  shows "run_loop max_iterations http impl iteration progress_log =
     behind
       [(progress_log @ [Thinking (Suc iteration)], []),
        (progress_log @ [Thinking (Suc iteration), NoToolCalls], [])]
       (run_loop max_iterations http impl (Suc iteration)
          (progress_log @ [Thinking (Suc iteration), NoToolCalls]))"
  using assms by (subst run_loop.simps) simp

lemma run_loop_exhausted:
  "run_loop max_iterations http impl max_iterations progress_log =
     \<lparr>yields = [(progress_log @ [LimitReached], MSG_LIMIT)], llm_calls = 0, ending = EXHAUSTED\<rparr>"
  by (subst run_loop.simps) simp

subsection \<open>The last piece of a split is the text behind the last marker\<close>

lemma partition_at_Some_eq:
  "partition_at sep s = Some (before, rest) \<Longrightarrow> s = before @ sep @ rest"
proof (induction s arbitrary: before)
  case Nil
  then show ?case by simp
next
  case (Cons x xs)
  show ?case
  proof (cases "prefix sep (x # xs)")
    case True
    then obtain zs where zs: "x # xs = sep @ zs" by (auto simp: prefix_def)
    from True Cons.prems have "before = []" "rest = drop (length sep) (x # xs)"
      by simp_all
    then show ?thesis
      unfolding zs by simp
  next
    case False
    with Cons show ?thesis by (auto split: option.splits)
  qed
qed

lemma partition_at_None_iff:
  "sep \<noteq> [] \<Longrightarrow> partition_at sep s = None \<longleftrightarrow> \<not> sublist sep s"
  by (induction s) (auto simp: sublist_Cons_right split: option.splits)

lemma py_split_last:
  "sep \<noteq> [] \<Longrightarrow>
   \<not> sublist sep (last (py_split sep s)) \<and>
   (if sublist sep s then \<exists>pre. s = pre @ sep @ last (py_split sep s)
    else last (py_split sep s) = s)"
proof (induction sep s rule: py_split.induct)
  case (1 sep s)
  show ?case
  proof (cases "partition_at sep s")
    case None
    with 1(2) have "\<not> sublist sep s" by (simp add: partition_at_None_iff)
    with None 1(2) show ?thesis by (simp add: py_split.simps [of sep s])
  next
    case (Some p)
    obtain before rest where p: "p = (before, rest)" by (cases p)
    from Some p have s: "s = before @ sep @ rest" by (simp add: partition_at_Some_eq)
    have ih: "\<not> sublist sep (last (py_split sep rest)) \<and>
       (if sublist sep rest then \<exists>pre. rest = pre @ sep @ last (py_split sep rest)
        else last (py_split sep rest) = rest)"
      using 1 Some p by simp
    have ne: "py_split sep rest \<noteq> []"
      using 1(2) by (simp add: py_split.simps [of sep rest] split: option.splits)
    have l: "last (py_split sep s) = last (py_split sep rest)"
      using 1(2) Some p ne by (simp add: py_split.simps [of sep s])
    have sub: "sublist sep s"
      using s by (auto simp: sublist_def)
    have "\<exists>pre. s = pre @ sep @ last (py_split sep rest)"
    proof (cases "sublist sep rest")
      case True
      with ih obtain pre where "rest = pre @ sep @ last (py_split sep rest)" by auto
      with s have "s = (before @ sep @ pre) @ sep @ last (py_split sep rest)" by simp
      then show ?thesis by blast
    next
      case False
      with ih have "last (py_split sep rest) = rest" by simp
      with s show ?thesis by auto
    qed
    with ih l sub show ?thesis by simp
  qed
qed

lemma last_occurrence:
  assumes sep: "sep = c # t" "c \<notin> set t"
    and 1: "s = pre @ sep @ post" and no: "\<not> sublist sep post"
    and 2: "s = pre' @ sep @ post'"
  shows "length pre' \<le> length pre"
proof (rule ccontr)
  assume "\<not> length pre' \<le> length pre"
  then have gt: "length pre < length pre'" by simp
  show False
  proof (cases "length pre + length sep \<le> length pre'")
    case True
    have "post = drop (length pre + length sep) s"
      using 1 by simp
    also have "\<dots> = drop (length pre + length sep) pre' @ sep @ post'"
      using 2 True by simp
    finally have "sublist sep post"
      by (auto simp: sublist_def)
    with no show False by simp
  next
    case False
    define k where "k = length pre' - length pre"
    have k: "0 < k" "k < length sep" "length pre' = length pre + k"
      using gt False by (auto simp: k_def)
    have "s ! length pre' = c"
      using 2 sep by (simp add: nth_append)
    moreover have "s ! length pre' = sep ! k"
      using 1 k by (simp add: nth_append)
    moreover have "sep ! k \<in> set t"
      using k sep by (cases k) auto
    ultimately show False
      using sep by simp
  qed
qed

lemma FINAL_MARKER_shape: "\<exists>t. FINAL_MARKER = 1060 # t \<and> 1060 \<notin> set t"
  by (simp add: FINAL_MARKER_def)

lemma final_answer_spec:
  assumes "sublist FINAL_MARKER response"
  shows "\<exists>pre. response = pre @ FINAL_MARKER @ last (py_split FINAL_MARKER response) \<and>
          (\<forall>pre' post'. response = pre' @ FINAL_MARKER @ post' \<longrightarrow> length pre' \<le> length pre)"
proof -
  have ne: "FINAL_MARKER \<noteq> []" by (simp add: FINAL_MARKER_def)
  from py_split_last [OF ne, of response] assms
  obtain pre where pre: "response = pre @ FINAL_MARKER @ last (py_split FINAL_MARKER response)"
    and no: "\<not> sublist FINAL_MARKER (last (py_split FINAL_MARKER response))"
    by auto
  obtain t where t: "FINAL_MARKER = 1060 # t" "1060 \<notin> set t"
    using FINAL_MARKER_shape by blast
  have "\<forall>pre' post'. response = pre' @ FINAL_MARKER @ post' \<longrightarrow> length pre' \<le> length pre"
    using last_occurrence [OF t pre no] by blast
  with pre show ?thesis by blast
qed

subsection \<open>A model that neither answers nor calls a tool\<close>

text \<open>
  \<open>nudged h\<close>: the completion call with the request history \<open>h\<close> returns a non-empty text that
  passes the safety filter, holds no final-answer marker and gives no tool call, so that the
  loop appends its corrective message and goes on. \<open>nudged_log k n\<close> is what the iterations
  \<open>k + 1\<close> to \<open>n\<close> then add to the progress log, \<open>nudged_yields\<close> the pairs they yield.
\<close>

definition nudged :: "(nat \<Rightarrow> attempt) \<Rightarrow> bool" where
  "nudged h =
     (\<exists>response. returned (call_llm h 5) = Some response \<and> response \<noteq> [] \<and>
        fst (check_response_safety response) \<and> \<not> sublist FINAL_MARKER response \<and>
        parse_tool_calls response = Inr [])"

definition nudged_log :: "nat \<Rightarrow> nat \<Rightarrow> progress list" where
  "nudged_log k n = concat (map (\<lambda>i. [Thinking i, NoToolCalls]) [Suc k..<Suc n])"

definition nudged_yields :: "progress list \<Rightarrow> nat \<Rightarrow> nat \<Rightarrow> yielded list" where
  "nudged_yields progress_log k n =
     concat (map (\<lambda>i. [(progress_log @ nudged_log k (i - 1) @ [Thinking i], []),
                        (progress_log @ nudged_log k i, [])]) [Suc k..<Suc n])"

lemma run_loop_all_nudged:
  assumes "k \<le> n" and "\<forall>i. k < i \<and> i \<le> n \<longrightarrow> nudged (http i)"
  shows "run_loop n http impl k progress_log =
     \<lparr>yields = nudged_yields progress_log k n @
                 [(progress_log @ nudged_log k n @ [LimitReached], MSG_LIMIT)],
      llm_calls = n - k, ending = EXHAUSTED\<rparr>"
  using assms
proof (induction "n - k" arbitrary: k progress_log)
  case 0
  then have "k = n" by simp
  then show ?case
    by (simp add: run_loop_exhausted nudged_yields_def nudged_log_def)
next
  case (Suc d)
  then have lt: "k < n" by simp
  with Suc.prems have "nudged (http (Suc k))" by simp
  then obtain response where r: "returned (call_llm (http (Suc k)) 5) = Some response"
    "response \<noteq> []" "fst (check_response_safety response)"
    "\<not> sublist FINAL_MARKER response" "parse_tool_calls response = Inr []"
    unfolding nudged_def by blast
  have ih: "run_loop n http impl (Suc k) (progress_log @ [Thinking (Suc k), NoToolCalls]) =
     \<lparr>yields = nudged_yields (progress_log @ [Thinking (Suc k), NoToolCalls]) (Suc k) n @
                 [((progress_log @ [Thinking (Suc k), NoToolCalls]) @ nudged_log (Suc k) n @
                   [LimitReached], MSG_LIMIT)],
      llm_calls = n - Suc k, ending = EXHAUSTED\<rparr>"
    using Suc.hyps(2) Suc.prems lt by (intro Suc.hyps(1)) auto
  have up: "[Suc k..<Suc n] = Suc k # [Suc (Suc k)..<Suc n]"
    using lt by (simp add: upt_conv_Cons)
  have log: "\<And>m. k < m \<Longrightarrow> nudged_log k m = [Thinking (Suc k), NoToolCalls] @ nudged_log (Suc k) m"
    by (simp add: nudged_log_def upt_conv_Cons)
  have log0: "\<And>m. nudged_log m m = []"
    by (simp add: nudged_log_def)
  let ?log' = "progress_log @ [Thinking (Suc k), NoToolCalls]"
  let ?F = "\<lambda>i. [(progress_log @ nudged_log k (i - 1) @ [Thinking i], []),
                 (progress_log @ nudged_log k i, [])]"
  let ?G = "\<lambda>i. [(?log' @ nudged_log (Suc k) (i - 1) @ [Thinking i], []),
                 (?log' @ nudged_log (Suc k) i, [])]"
  have FG: "?F i = ?G i" if "i \<in> set [Suc (Suc k)..<Suc n]" for i
  proof -
    from that have "k < i - 1" "k < i" by auto
    then show ?thesis by (simp add: log)
  qed
  have meq: "map ?F [Suc (Suc k)..<Suc n] = map ?G [Suc (Suc k)..<Suc n]"
    by (rule map_cong [OF refl]) (rule FG)
  have F0: "?F (Suc k) =
      [(progress_log @ [Thinking (Suc k)], []), (progress_log @ [Thinking (Suc k), NoToolCalls], [])]"
    by (simp add: log0 log)
  have "nudged_yields progress_log k n = concat (map ?F (Suc k # [Suc (Suc k)..<Suc n]))"
    unfolding nudged_yields_def up ..
  also have "\<dots> = ?F (Suc k) @ concat (map ?F [Suc (Suc k)..<Suc n])"
    by (simp only: list.map concat.simps)
  also have "\<dots> = ?F (Suc k) @ concat (map ?G [Suc (Suc k)..<Suc n])"
    by (simp only: meq)
  also have "\<dots> = ?F (Suc k) @ nudged_yields ?log' (Suc k) n"
    unfolding nudged_yields_def ..
  finally have ys: "nudged_yields progress_log k n =
      [(progress_log @ [Thinking (Suc k)], []), (progress_log @ [Thinking (Suc k), NoToolCalls], [])] @
      nudged_yields ?log' (Suc k) n"
    unfolding F0 .
  have step: "run_loop n http impl k progress_log =
     behind
       [(progress_log @ [Thinking (Suc k)], []),
        (progress_log @ [Thinking (Suc k), NoToolCalls], [])]
       (run_loop n http impl (Suc k) (progress_log @ [Thinking (Suc k), NoToolCalls]))"
    using lt r by (rule run_loop_nudge)
  show ?case
    unfolding step ih ys using lt by (simp add: behind_def log Suc_diff_Suc)
qed

subsection \<open>Sample runs\<close>

text \<open>Four completion services that always give the same answer (a plain sentence, a text with
  a process call, an answer behind the marker, the marker alone) and a registry whose tools
  all raise.\<close>

definition plain_text :: pystr where
  "plain_text = asc ''Let me think about the audience.''"

definition http_plain :: "nat \<Rightarrow> nat \<Rightarrow> attempt" where
  "http_plain i k = Returned plain_text"

definition unsafe_text :: pystr where
  "unsafe_text = asc ''Run os.system(cmd) now''"

definition http_unsafe :: "nat \<Rightarrow> nat \<Rightarrow> attempt" where
  "http_unsafe i k = Returned unsafe_text"

definition final_text :: pystr where
  "final_text = asc ''Done. '' @ FINAL_MARKER @ asc '' plan A ''"

definition http_final :: "nat \<Rightarrow> nat \<Rightarrow> attempt" where
  "http_final i k = Returned final_text"

definition http_marker_only :: "nat \<Rightarrow> nat \<Rightarrow> attempt" where
  "http_marker_only i k = Returned FINAL_MARKER"

definition no_tools :: tool_impl where
  "no_tools tool_name arguments = Inl (asc ''unavailable'')"

lemmas safety_eval = check_response_safety_def dangerous_patterns_def

lemmas parse_eval = parse_tool_calls_def findall_closed.simps OPEN_TAG_def CLOSE_TAG_def
  lstrip_def rstrip_def strip_def suffix_to_prefix json_eval

lemma call_llm_Returned: "http 0 = Returned c \<Longrightarrow> returned (call_llm http 5) = Some c"
  by (simp add: call_llm_def call_llm_from.simps)

lemma sanitize_plan: "sanitize_input (asc ''plan'') 5000 = (asc ''plan'', [])"
  by (simp add: sanitize_eval rx_eval text_eval)

lemma plain_text_safe: "fst (check_response_safety plain_text)"
  by (simp add: plain_text_def safety_eval rx_eval asc_def)

lemma plain_text_no_marker: "\<not> sublist FINAL_MARKER plain_text"
  by (simp add: plain_text_def FINAL_MARKER_def text_eval)

lemma plain_text_no_tool_calls: "parse_tool_calls plain_text = Inr []"
  by (simp add: plain_text_def parse_eval rx_eval)

lemma nudged_http_plain: "nudged (http_plain i)"
  unfolding nudged_def
  by (intro exI [of _ plain_text])
    (simp add: call_llm_Returned http_plain_def plain_text_safe plain_text_no_marker
      plain_text_no_tool_calls, simp add: plain_text_def asc_def)

lemma run_stream_valid:
  "strip (fst (sanitize_input user_query 5000)) \<noteq> [] \<Longrightarrow>
   run_stream N http impl user_query = run_loop N http impl 0 []"
  by (cases "sanitize_input user_query 5000") (simp add: run_stream_def)

text \<open>
  C1, amended: for a query that is not empty after sanitization and every
  \<open>max_iterations = N\<close>, if every completion of the iterations 1 to \<open>N\<close> succeeds with a
  non-empty text that passes the safety check, holds no final-answer marker and yields no
  parsed tool call, then \<open>run_stream\<close> makes exactly \<open>N\<close> completion calls in \<open>N\<close> iterations
  (two status lines each) and ends in the exhausted state, its last pair carrying the
  refine-request message. The function is total: the run always ends.
\<close>

theorem run_stream_exhausts:
  assumes "strip (fst (sanitize_input user_query 5000)) \<noteq> []"
    and "\<forall>i. 0 < i \<and> i \<le> N \<longrightarrow> nudged (http i)"
  shows "run_stream N http impl user_query =
     \<lparr>yields = nudged_yields [] 0 N @ [(nudged_log 0 N @ [LimitReached], MSG_LIMIT)],
      llm_calls = N, ending = EXHAUSTED\<rparr>"
proof -
  have "run_stream N http impl user_query = run_loop N http impl 0 []"
    using assms(1) by (rule run_stream_valid)
  also have "\<dots> = \<lparr>yields = nudged_yields [] 0 N @ [([] @ nudged_log 0 N @ [LimitReached], MSG_LIMIT)],
      llm_calls = N - 0, ending = EXHAUSTED\<rparr>"
    using assms(2) by (intro run_loop_all_nudged) auto
  finally show ?thesis by simp
qed

theorem run_stream_exhausts_witness:
  "run_stream 2 http_plain no_tools (asc ''plan'') =
     \<lparr>yields =
        [([Thinking 1], []),
         ([Thinking 1, NoToolCalls], []),
         ([Thinking 1, NoToolCalls, Thinking 2], []),
         ([Thinking 1, NoToolCalls, Thinking 2, NoToolCalls], []),
         ([Thinking 1, NoToolCalls, Thinking 2, NoToolCalls, LimitReached], MSG_LIMIT)],
      llm_calls = 2, ending = EXHAUSTED\<rparr>"
proof -
  have q: "strip (fst (sanitize_input (asc ''plan'') 5000)) \<noteq> []"
    by (simp add: sanitize_plan) (simp add: strip_def isspace_def asc_def)
  have n: "\<forall>i. 0 < i \<and> i \<le> 2 \<longrightarrow> nudged (http_plain i)"
    by (simp add: nudged_http_plain)
  have u: "[Suc 0..<Suc 2] = [1, 2]"
    by (simp add: upt_rec)
  show ?thesis
    unfolding run_stream_exhausts [OF q n]
    by (simp add: nudged_yields_def nudged_log_def u) (simp add: upt_rec)
qed

text \<open>
  C1, as stated, has no condition on the query. For the empty query the guard in front of the
  loop ends the run with the validation message: with \<open>max_iterations = 1\<close> and a service
  that would be nudged, no iteration runs and no completion is requested.
\<close>

theorem run_stream_empty_query_counterexample:
  "nudged (http_plain 1) \<and>
   run_stream 1 http_plain no_tools [] =
     \<lparr>yields = [([EmptyQuery], MSG_EMPTY_QUERY)], llm_calls = 0, ending = INVALID_INPUT\<rparr>"
proof -
  have "sanitize_input [] 5000 = ([], [])"
    by (simp add: sanitize_eval rx_eval text_eval)
  then show ?thesis
    by (simp add: nudged_http_plain run_stream_def strip_def)
qed

text \<open>
  C2: in every iteration (the loop at any iteration below the bound, with any progress log
  so far) whose completion matches one of the dangerous patterns, \<open>check_response_safety\<close>
  returns unsafe with the reason naming the first pattern of the list that matches, and the
  run ends in that iteration, whatever budget is left: it yields the line of the iteration
  and then the blocked line with the safety-rejection message as the final result, and
  returns. Both pairs are made of the earlier log, the iteration number and fixed texts:
  the response does not occur in them.
\<close>

theorem unsafe_response_aborts_run:
  assumes "iteration < max_iterations"
    and "returned (call_llm (http (Suc iteration)) 5) = Some response"
    and "(pattern, r) \<in> set dangerous_patterns"
    and "re_search r response"
  shows "(\<exists>before offending r' behind.
            dangerous_patterns = before @ (offending, r') # behind \<and>
            re_search r' response \<and>
            (\<forall>q \<in> set before. \<not> re_search (snd q) response) \<and>
            check_response_safety response = (False, UNSAFE_REASON @ offending)) \<and>
         run_loop max_iterations http impl iteration progress_log =
           \<lparr>yields = [(progress_log @ [Thinking (Suc iteration)], []),
                      (progress_log @ [Thinking (Suc iteration), UnsafeBlocked], MSG_BLOCKED)],
            llm_calls = 1, ending = ABORTED\<rparr>"
proof -
  obtain offending where f: "first_dangerous dangerous_patterns response = Some offending"
    using first_dangerous_exists [OF assms(3,4)] by blast
  then obtain before r' behind where
    d: "dangerous_patterns = before @ (offending, r') # behind" "re_search r' response"
       "\<forall>q \<in> set before. \<not> re_search (snd q) response"
    unfolding first_dangerous_first by blast
  have c: "check_response_safety response = (False, UNSAFE_REASON @ offending)"
    by (simp add: check_response_safety_def f)
  have ne: "response \<noteq> []"
    using dangerous_needs_text [OF assms(3)] assms(4) by auto
  have "run_loop max_iterations http impl iteration progress_log =
           \<lparr>yields = [(progress_log @ [Thinking (Suc iteration)], []),
                      (progress_log @ [Thinking (Suc iteration), UnsafeBlocked], MSG_BLOCKED)],
            llm_calls = 1, ending = ABORTED\<rparr>"
    using assms(1,2) ne by (rule run_loop_unsafe) (simp add: c)
  with d c show ?thesis by blast
qed

lemma unsafe_text_dangerous:
  "check_response_safety unsafe_text =
     (False, UNSAFE_REASON @ [111, 115, 92, 46, 40, 115, 121, 115, 116, 101, 109, 124, 112, 111,
        112, 101, 110, 124, 101, 120, 101, 99, 41])"
  by (simp add: unsafe_text_def safety_eval rx_eval asc_def)

theorem unsafe_response_aborts_run_witness:
  "check_response_safety unsafe_text =
     (False, UNSAFE_REASON @ [111, 115, 92, 46, 40, 115, 121, 115, 116, 101, 109, 124, 112, 111,
        112, 101, 110, 124, 101, 120, 101, 99, 41]) \<and>
   run_loop 8 http_unsafe no_tools 2 [Thinking 1, NoToolCalls, Thinking 2, NoToolCalls] =
     \<lparr>yields =
        [([Thinking 1, NoToolCalls, Thinking 2, NoToolCalls, Thinking 3], []),
         ([Thinking 1, NoToolCalls, Thinking 2, NoToolCalls, Thinking 3, UnsafeBlocked],
          MSG_BLOCKED)],
      llm_calls = 1, ending = ABORTED\<rparr>"
proof -
  let ?r = "seq [lits (asc ''os.''),
           Alt (lits (asc ''system'')) (Alt (lits (asc ''popen'')) (lits (asc ''exec'')))]"
  let ?p = "[111, 115, 92, 46, 40, 115, 121, 115, 116, 101, 109, 124, 112, 111,
        112, 101, 110, 124, 101, 120, 101, 99, 41]"
  have 1: "(2::nat) < 8" by simp
  have 2: "returned (call_llm (http_unsafe (Suc 2)) 5) = Some unsafe_text"
    by (simp add: call_llm_Returned http_unsafe_def)
  have 3: "(?p, ?r) \<in> set dangerous_patterns"
    by (simp add: dangerous_patterns_def)
  have 4: "re_search ?r unsafe_text"
    by (simp add: unsafe_text_def rx_eval asc_def)
  from unsafe_response_aborts_run [where iteration = 2 and http = http_unsafe and impl = no_tools
      and progress_log = "[Thinking 1, NoToolCalls, Thinking 2, NoToolCalls]", OF 1 2 3 4]
  show ?thesis
    by (simp add: unsafe_text_dangerous numeral_3_eq_3)
qed

text \<open>
  C3: in every iteration whose completion passes the safety check and contains the
  final-answer marker, the run ends in that iteration in the final state. The final result is
  \<open>strip answer\<close>, where \<open>answer\<close>, the last piece of the split, is the text behind the last
  occurrence of the marker: the response is some text, the marker and \<open>answer\<close>, and no
  occurrence of the marker starts further right. If it is the first response of a run with a
  valid query, the run ends after exactly one iteration and one completion call.
\<close>

theorem final_answer_ends_run:
  assumes "iteration < max_iterations"
    and "returned (call_llm (http (Suc iteration)) 5) = Some response"
    and "fst (check_response_safety response)"
    and "sublist FINAL_MARKER response"
    and "answer = last (py_split FINAL_MARKER response)"
  shows "(\<exists>pre. response = pre @ FINAL_MARKER @ answer \<and>
            (\<forall>pre' post'. response = pre' @ FINAL_MARKER @ post' \<longrightarrow> length pre' \<le> length pre)) \<and>
         run_loop max_iterations http impl iteration progress_log =
           \<lparr>yields = [(progress_log @ [Thinking (Suc iteration)], []),
                      (progress_log @ [Thinking (Suc iteration), FinalAnswer], strip answer)],
            llm_calls = 1, ending = FINAL\<rparr> \<and>
         (iteration = 0 \<and> strip (fst (sanitize_input user_query 5000)) \<noteq> [] \<longrightarrow>
            run_stream max_iterations http impl user_query =
              \<lparr>yields = [([Thinking 1], []), ([Thinking 1, FinalAnswer], strip answer)],
               llm_calls = 1, ending = FINAL\<rparr>)"
proof -
  have s: "\<exists>pre. response = pre @ FINAL_MARKER @ answer \<and>
            (\<forall>pre' post'. response = pre' @ FINAL_MARKER @ post' \<longrightarrow> length pre' \<le> length pre)"
    unfolding assms(5) using assms(4) by (rule final_answer_spec)
  have l: "run_loop max_iterations http impl iteration lg =
           \<lparr>yields = [(lg @ [Thinking (Suc iteration)], []),
                      (lg @ [Thinking (Suc iteration), FinalAnswer], strip answer)],
            llm_calls = 1, ending = FINAL\<rparr>" for lg
    unfolding assms(5) using assms(1-4) by (rule run_loop_final)
  have "run_stream max_iterations http impl user_query =
              \<lparr>yields = [([Thinking 1], []), ([Thinking 1, FinalAnswer], strip answer)],
               llm_calls = 1, ending = FINAL\<rparr>"
    if "iteration = 0" "strip (fst (sanitize_input user_query 5000)) \<noteq> []"
    using that l [of "[]"] by (simp add: run_stream_valid)
  with s l show ?thesis by blast
qed

lemma final_text_safe: "fst (check_response_safety final_text)"
  by (simp add: final_text_def FINAL_MARKER_def safety_eval rx_eval asc_def)

lemma final_text_marker: "sublist FINAL_MARKER final_text"
  by (simp add: final_text_def sublist_def) blast

lemma final_text_answer: "strip (last (py_split FINAL_MARKER final_text)) = asc ''plan A''"
  by (simp add: final_text_def FINAL_MARKER_def py_split.simps strip_def isspace_def asc_def)

theorem final_answer_ends_run_witness:
  "run_stream 8 http_final no_tools (asc ''plan'') =
     \<lparr>yields = [([Thinking 1], []), ([Thinking 1, FinalAnswer], asc ''plan A'')],
      llm_calls = 1, ending = FINAL\<rparr>"
proof -
  have 1: "(0::nat) < 8" by simp
  have 2: "returned (call_llm (http_final (Suc 0)) 5) = Some final_text"
    by (simp add: call_llm_Returned http_final_def)
  have q: "strip (fst (sanitize_input (asc ''plan'') 5000)) \<noteq> []"
    by (simp add: sanitize_plan) (simp add: strip_def isspace_def asc_def)
  from final_answer_ends_run [where iteration = 0 and http = http_final and impl = no_tools
      and progress_log = "[]" and user_query = "asc ''plan''",
      OF 1 2 final_text_safe final_text_marker refl] q
  show ?thesis
    by (simp add: final_text_answer)
qed

subsection \<open>The pairs of a run\<close>

lemma marker_only_safe: "fst (check_response_safety FINAL_MARKER)"
  by (simp add: FINAL_MARKER_def safety_eval rx_eval asc_def)

lemma dispatch_pairs_empty:
  "dispatch impl tool_calls lg = (ys, new_log, e) \<Longrightarrow> \<forall>y \<in> set ys. snd y = []"
proof (induction tool_calls arbitrary: lg ys new_log e)
  case Nil
  then show ?case by simp
next
  case (Cons tool_call tool_calls)
  then show ?case
    by (fastforce split: sum.splits json.splits option.splits prod.splits)
qed

text \<open>
  \<open>progress_pairs_ok r\<close>: the run yields at least one pair; every pair but the last has an
  empty final result; the last pair has an empty final result when an exception ended the
  run, and a non-empty one when the run ended with the validation message, with an abort or
  with exhaustion. Every run is so (\<open>run_stream_pairs_ok\<close>): what is left open is the run
  that ends with a final answer.
\<close>

definition progress_pairs_ok :: "run \<Rightarrow> bool" where
  "progress_pairs_ok r =
     (yields r \<noteq> [] \<and> (\<forall>y \<in> set (butlast (yields r)). snd y = []) \<and>
      (case ending r of
         RAISED e \<Rightarrow> snd (last (yields r)) = []
       | FINAL \<Rightarrow> True
       | _ \<Rightarrow> snd (last (yields r)) \<noteq> []))"

lemma behind_pairs_ok:
  "progress_pairs_ok r \<Longrightarrow> \<forall>y \<in> set ys. snd y = [] \<Longrightarrow> progress_pairs_ok (behind ys r)"
  by (auto simp: progress_pairs_ok_def behind_def butlast_append split: ending.splits)

lemma run_loop_pairs_ok: "progress_pairs_ok (run_loop max_iterations http impl iteration progress_log)"
proof (induction max_iterations http impl iteration progress_log rule: run_loop.induct)
  case (1 max_iterations http impl iteration progress_log)
  show ?case
  proof (cases "iteration < max_iterations")
    case False
    then show ?thesis
      by (subst run_loop.simps) (simp add: progress_pairs_ok_def MSG_LIMIT_def)
  next
    case lt: True
    show ?thesis
    proof (cases "returned (call_llm (http (Suc iteration)) 5)")
      case None
      with lt show ?thesis
        by (subst run_loop.simps) (simp add: progress_pairs_ok_def MSG_LLM_ERROR_def)
    next
      case (Some response)
      consider (empty) "response = []"
        | (unsafe) "response \<noteq> []" "\<not> fst (check_response_safety response)"
        | (final) "response \<noteq> []" "fst (check_response_safety response)"
            "sublist FINAL_MARKER response"
        | (tools) "response \<noteq> []" "fst (check_response_safety response)"
            "\<not> sublist FINAL_MARKER response"
        by blast
      then show ?thesis
      proof cases
        case empty
        with lt Some show ?thesis
          by (subst run_loop.simps) (simp add: progress_pairs_ok_def MSG_LLM_ERROR_def)
      next
        case unsafe
        with lt Some show ?thesis
          by (subst run_loop.simps) (simp add: progress_pairs_ok_def MSG_BLOCKED_def)
      next
        case final
        with lt Some show ?thesis
          by (subst run_loop.simps) (simp add: progress_pairs_ok_def)
      next
        case tools
        show ?thesis
        proof (cases "parse_tool_calls response")
          case (Inl e)
          with lt Some tools show ?thesis
            by (subst run_loop.simps) (simp add: progress_pairs_ok_def)
        next
          case (Inr tool_calls)
          show ?thesis
          proof (cases "tool_calls = []")
            case True
            have "progress_pairs_ok (run_loop max_iterations http impl (Suc iteration)
                (progress_log @ [Thinking (Suc iteration), NoToolCalls]))"
              using lt Some tools Inr True by (intro "1.IH"(1)) auto
            then have "progress_pairs_ok (behind
                [(progress_log @ [Thinking (Suc iteration)], []),
                 (progress_log @ [Thinking (Suc iteration), NoToolCalls], [])]
                (run_loop max_iterations http impl (Suc iteration)
                  (progress_log @ [Thinking (Suc iteration), NoToolCalls])))"
              by (rule behind_pairs_ok) simp
            with lt Some tools Inr True show ?thesis
              by (subst run_loop.simps) simp
          next
            case False
            obtain ys new_log e where
              d: "dispatch impl tool_calls (progress_log @ [Thinking (Suc iteration)]) = (ys, new_log, e)"
              by (cases "dispatch impl tool_calls (progress_log @ [Thinking (Suc iteration)])")
            have ys: "\<forall>y \<in> set ys. snd y = []"
              using d by (rule dispatch_pairs_empty)
            show ?thesis
            proof (cases e)
              case None
              have "progress_pairs_ok (run_loop max_iterations http impl (Suc iteration) new_log)"
                using lt Some tools Inr False d None by (intro "1.IH"(2)) auto
              then have "progress_pairs_ok (behind ((progress_log @ [Thinking (Suc iteration)], []) # ys)
                  (run_loop max_iterations http impl (Suc iteration) new_log))"
                by (rule behind_pairs_ok) (use ys in simp)
              with lt Some tools Inr False d None show ?thesis
                by (subst run_loop.simps) simp
            next
              case (Some ex)
              have "snd (last ((progress_log @ [Thinking (Suc iteration)], []) # ys)) = []"
                using ys by (cases ys rule: rev_cases) auto
              moreover have "\<forall>y \<in> set (butlast ((progress_log @ [Thinking (Suc iteration)], []) # ys)). snd y = []"
                using ys by (auto dest: in_set_butlastD)
              ultimately show ?thesis
                using lt \<open>returned (call_llm (http (Suc iteration)) 5) = Some response\<close>
                  tools Inr False d Some
                by (subst run_loop.simps) (simp add: progress_pairs_ok_def)
            qed
          qed
        qed
      qed
    qed
  qed
qed

lemma run_stream_pairs_ok: "progress_pairs_ok (run_stream max_iterations http impl user_query)"
proof (cases "strip (fst (sanitize_input user_query 5000)) = []")
  case True
  then show ?thesis
    by (cases "sanitize_input user_query 5000")
      (simp add: run_stream_def progress_pairs_ok_def MSG_EMPTY_QUERY_def)
next
  case False
  then show ?thesis
    by (simp add: run_stream_valid run_loop_pairs_ok)
qed

text \<open>
  C9: the pairs of every run are as the claim says, but for the last pair of a run that ends
  with a final answer: its final result is the text behind the marker, which is empty when
  the response has only whitespace there. A response that is the marker alone ends the run
  with a last pair whose final result is empty, which the callers of \<open>run_stream\<close> read as
  "still working".
\<close>

theorem final_answer_blank_run:
  "run_stream 8 http_marker_only no_tools (asc ''plan'') =
     \<lparr>yields = [([Thinking 1], []), ([Thinking 1, FinalAnswer], [])],
      llm_calls = 1, ending = FINAL\<rparr>"
proof -
  have 1: "(0::nat) < 8" by simp
  have 2: "returned (call_llm (http_marker_only (Suc 0)) 5) = Some FINAL_MARKER"
    by (simp add: call_llm_Returned http_marker_only_def)
  have q: "strip (fst (sanitize_input (asc ''plan'') 5000)) \<noteq> []"
    by (simp add: sanitize_plan) (simp add: strip_def isspace_def asc_def)
  have a: "strip (last (py_split FINAL_MARKER FINAL_MARKER)) = []"
    by (simp add: FINAL_MARKER_def py_split.simps strip_def)
  show ?thesis
    unfolding run_stream_valid [OF q]
    by (simp add: run_loop_final [where http = http_marker_only and iteration = 0,
          OF 1 2 marker_only_safe] a)
qed

section \<open>Properties of the tool-call parser\<close>




















lemmas parse_eval2 = parse_eval sublist_code(3) isspace_def







text \<open>A block that decodes to a number makes the key test raise \<open>TypeError\<close>, which
  \<open>_parse_tool_calls\<close> does not catch.\<close>

lemma parse_scalar_block_raises:
  \<open>json_loads (asc ''42'') = Some (JNum (asc ''42'')) \<and>
   parse_tool_calls (asc ''<tool_call>42</tool_call>'') = Inl TypeError\<close>
proof -
  have 1: \<open>json_loads (asc ''42'') = Some (JNum (asc ''42''))\<close>
    by (simp add: json_eval)
  have 2: \<open>parse_tool_calls (asc ''<tool_call>42</tool_call>'') = Inl TypeError\<close>
    by (simp add: parse_eval2)
  from 1 2 show ?thesis by simp
qed

section \<open>Properties of the tool dispatch\<close>

subsection \<open>The error object reads back\<close>






subsection \<open>What the dispatch returns\<close>






end
